theory Spec2Isabelle
  imports Complex_Main
begin

section \<open>Values of the platform\<close>

text \<open>
  The server is JavaScript. A property that may be absent is an \<open>option\<close>: \<open>None\<close> is
  \<open>undefined\<close>. Strings are lists of characters and \<open>length\<close> is the source's
  \<open>.length\<close>.
\<close>

definition truthy :: "string option \<Rightarrow> bool" where
  \<comment> \<open>a string is truthy unless it is undefined or empty\<close>
  "truthy v = (case v of None \<Rightarrow> False | Some s \<Rightarrow> s \<noteq> [])"

definition js_or :: "string option \<Rightarrow> string option \<Rightarrow> string option" where
  \<comment> \<open>\<open>a || b\<close>\<close>
  "js_or a b = (if truthy a then a else b)"

definition tmpl :: "string option \<Rightarrow> string" where
  \<comment> \<open>a value inside a template literal: \<open>undefined\<close> prints as the word\<close>
  "tmpl v = (case v of None \<Rightarrow> ''undefined'' | Some s \<Rightarrow> s)"

subsection \<open>Numbers to strings and back\<close>

function String_nat :: "nat \<Rightarrow> string" where
  \<comment> \<open>\<open>String(n)\<close> for a non-negative integer: its decimal digits\<close>
  "String_nat n =
     (if n < 10 then [''0123456789'' ! n]
      else String_nat (n div 10) @ [''0123456789'' ! (n mod 10)])"
  by pat_completeness auto
termination
  by (relation "measure (\<lambda>n. n)") auto

declare String_nat.simps [simp del]

text \<open>
  A number of the language is a double. The program only meets whole numbers, so a
  number is here \<open>NaN\<close>, an infinity, or \<open>Finite i\<close> for the double whose value is the
  integer \<open>i\<close>. Every integer up to \<open>2^53\<close> in size is such a value; a larger one is
  rounded to 53 significant bits, a tie to the even neighbour (\<open>round53\<close>), and to an
  infinity from \<open>2^1024\<close> on (\<open>to_double\<close>).
\<close>

datatype number = NaN | Finite int | PosInfinity | NegInfinity

function bitlen :: "nat \<Rightarrow> nat" where
  \<comment> \<open>the number of binary digits of n\<close>
  "bitlen n = (if n = 0 then 0 else Suc (bitlen (n div 2)))"
  by pat_completeness auto
termination
  by (relation "measure (\<lambda>n. n)") auto

declare bitlen.simps [simp del]

definition round53 :: "nat \<Rightarrow> nat" where
  "round53 n =
     (if n < 2 ^ 53 then n
      else let e = bitlen n - 53;
               q = n div 2 ^ e;
               r = n mod 2 ^ e
           in (if 2 ^ e < 2 * r \<or> (2 * r = 2 ^ e \<and> odd q) then q + 1 else q) * 2 ^ e)"

definition to_double :: "int \<Rightarrow> number" where
  \<comment> \<open>the number an integer becomes\<close>
  "to_double v =
     (let m = round53 (nat \<bar>v\<bar>)
      in if 2 ^ 1024 \<le> m then (if v < 0 then NegInfinity else PosInfinity)
         else Finite (if v < 0 then - int m else int m))"

definition num_add :: "number \<Rightarrow> int \<Rightarrow> number" where
  \<comment> \<open>\<open>x + k\<close> for a whole number k: the sum, rounded\<close>
  "num_add x k = (case x of Finite i \<Rightarrow> to_double (i + k) | _ \<Rightarrow> x)"

definition num_less :: "nat \<Rightarrow> number \<Rightarrow> bool" where
  \<comment> \<open>\<open>i < x\<close> for a counter i\<close>
  "num_less i x =
     (case x of NaN \<Rightarrow> False | Finite c \<Rightarrow> int i < c | PosInfinity \<Rightarrow> True | NegInfinity \<Rightarrow> False)"

definition String_num :: "(int \<Rightarrow> string) \<Rightarrow> number \<Rightarrow> string" where
  \<comment> \<open>\<open>String(x)\<close>. Up to \<open>2^53\<close> in size the digits are those of the value. Beyond, the
      platform prints the shortest digits that read back as the same double, or an
      exponent form; \<open>big\<close> stands for that printing.\<close>
  "String_num big x =
     (case x of
        NaN \<Rightarrow> ''NaN''
      | PosInfinity \<Rightarrow> ''Infinity''
      | NegInfinity \<Rightarrow> ''-Infinity''
      | Finite i \<Rightarrow>
          if \<bar>i\<bar> \<le> 2 ^ 53
          then (if i < 0 then CHR ''-'' # String_nat (nat (- i)) else String_nat (nat i))
          else big i)"

definition padStart2 :: "string \<Rightarrow> string" where
  \<comment> \<open>\<open>s.padStart(2, '0')\<close>\<close>
  "padStart2 s = replicate (2 - length s) CHR ''0'' @ s"

definition is_space :: "char \<Rightarrow> bool" where
  \<comment> \<open>the white space \<open>parseInt\<close> skips, among the characters of the model\<close>
  "is_space c = (c \<in> set [CHR 0x09, CHR 0x0A, CHR 0x0B, CHR 0x0C, CHR 0x0D, CHR 0x20, CHR 0xA0])"

definition digit_of :: "nat \<Rightarrow> char \<Rightarrow> nat option" where
  \<comment> \<open>the value of a character as a digit of the radix, if it is one\<close>
  "digit_of r c =
     (let n = (of_char c :: nat);
          v = (if 48 \<le> n \<and> n \<le> 57 then Some (n - 48)
               else if 97 \<le> n \<and> n \<le> 122 then Some (n - 87)
               else if 65 \<le> n \<and> n \<le> 90 then Some (n - 55)
               else None)
      in case v of None \<Rightarrow> None | Some d \<Rightarrow> if d < r then Some d else None)"

definition digits_value :: "nat \<Rightarrow> string \<Rightarrow> nat" where
  "digits_value r z =
     foldl (\<lambda>a c. a * r + (case digit_of r c of Some d \<Rightarrow> d | None \<Rightarrow> 0)) 0 z"

definition parseInt :: "string \<Rightarrow> number" where
  \<comment> \<open>\<open>parseInt(str)\<close> with no radix: the value of the digits, as a number. (Past twenty
      significant decimal digits the language lets an implementation read the rest as
      zeros; here all digits count.)\<close>
  "parseInt str =
     (let s0 = dropWhile is_space str;
          neg = (take 1 s0 = ''-'');
          s1 = (if take 1 s0 = ''-'' \<or> take 1 s0 = ''+'' then drop 1 s0 else s0);
          hex = (take 2 s1 = ''0x'' \<or> take 2 s1 = ''0X'');
          r = (if hex then 16 else 10);
          s2 = (if hex then drop 2 s1 else s1);
          z = takeWhile (\<lambda>c. digit_of r c \<noteq> None) s2
      in if z = [] then NaN
         else to_double ((if neg then - 1 else 1) * int (digits_value r z)))"

fun includes_str :: "string \<Rightarrow> string \<Rightarrow> bool" where
  \<comment> \<open>\<open>s.includes(p)\<close>\<close>
  "includes_str [] p = (p = [])"
| "includes_str (c # cs) p = (take (length p) (c # cs) = p \<or> includes_str cs p)"

definition toFixed2 :: "nat \<Rightarrow> string" where
  \<comment> \<open>\<open>(cents / 100).toFixed(2)\<close> for a whole number of cents\<close>
  "toFixed2 cents = String_nat (cents div 100) @ ''.'' @ padStart2 (String_nat (cents mod 100))"

section \<open>Data model\<close>

record slot =
  date :: "string option"
  time :: "string option"
  location :: "string option"
  displayDate :: "string option"

text \<open>
  The fields of a slot are strings, or absent. A cart item is a slot as the client posts
  it; \<open>dateStr\<close> is the fallback the encoder reads when the date is missing or empty.
\<close>

record cart_item = slot +
  dateStr :: "string option"

datatype 'a response =
    Status nat string   \<comment> \<open>\<open>res.status(n).json({ error: msg })\<close>\<close>
  | Json 'a             \<comment> \<open>\<open>res.json(payload)\<close>, HTTP 200\<close>

section \<open>Sessions of the payment processor\<close>

type_synonym metadata = "string \<rightharpoonup> string"

record charge =
  refunded :: bool
  amount_refunded :: nat

record payment_intent_obj =
  pi_id :: string
  charges_data :: "charge list option"  \<comment> \<open>\<open>payment_intent.charges.data\<close>, when present\<close>

datatype payment_intent =
    PI_null
  | PI_id string
  | PI_obj payment_intent_obj

record session =
  session_id :: string
  payment_status :: string
  customer_email :: "string option"
  amount_total :: nat
  created :: nat
  metadata :: metadata
  payment_intent :: payment_intent

datatype js_error = TypeError | SyntaxError | ProcessorError string

definition error_message :: "js_error \<Rightarrow> string" where
  \<comment> \<open>\<open>error.message\<close>; the engine's wording of its own errors is not modelled\<close>
  "error_message e =
     (case e of TypeError \<Rightarrow> ''TypeError'' | SyntaxError \<Rightarrow> ''SyntaxError''
      | ProcessorError m \<Rightarrow> m)"

section \<open>Booking codec: decoding\<close>

text \<open>
  \<open>JSON.parse\<close> is the platform's; the decoders take it as the parameter \<open>parse\<close>,
  typed at the payload the program expects (an array of slot objects), with \<open>None\<close>
  where it throws.
\<close>

type_synonym json_parse = "string \<Rightarrow> slot list option"

definition chunk_key :: "nat \<Rightarrow> string" where
  \<comment> \<open>the key \<open>bookings_i\<close>\<close>
  "chunk_key i = ''bookings_'' @ String_nat i"

text \<open>
  The loop that joins the chunks counts with a number: \<open>i++\<close> is \<open>i + 1\<close> rounded, which
  from \<open>2^53\<close> on is \<open>i\<close> again. With a bound above \<open>2^53\<close> the loop does not end, so the
  loop is a partial function: \<open>None\<close> is a loop that never returns. The counter starts
  at 0 and stays at most \<open>2^53\<close>, where its digits are those of \<open>String_nat\<close>.
\<close>

partial_function (option) reassemble :: "metadata \<Rightarrow> number \<Rightarrow> nat \<Rightarrow> string \<Rightarrow> string option" where
  \<comment> \<open>\<open>for (let i = 0; i < chunks; i++) bookingsStr += metadata[`bookings_${i}`] || ''\<close>\<close>
  "reassemble m chunks i bookingsStr =
     (if num_less i chunks
      then reassemble m chunks (round53 (i + 1))
             (bookingsStr @ tmpl (js_or (m (chunk_key i)) (Some [])))
      else Some bookingsStr)"

definition extractBookings :: "json_parse \<Rightarrow> session \<Rightarrow> slot list option" where
  \<comment> \<open>\<open>None\<close>: the call does not return. Whatever is thrown inside is caught.\<close>
  "extractBookings parse s =
     (let m = metadata s;
          bookingsStr =
            (if truthy (m ''bookings'') then Some (m ''bookings'')
             else if truthy (m ''bookings_chunks'')
             then map_option Some (reassemble m (parseInt (tmpl (m ''bookings_chunks''))) 0 [])
             else Some None)
      in case bookingsStr of
           None \<Rightarrow> None
         | Some str \<Rightarrow>
             Some (if truthy str
                   then (case parse (tmpl str) of Some bookings \<Rightarrow> bookings | None \<Rightarrow> [])
                   else []))"

definition verify_decode :: "json_parse \<Rightarrow> session \<Rightarrow> (js_error + slot list) option" where
  \<comment> \<open>the decoder written out in the verify handler; \<open>None\<close>: it does not return\<close>
  "verify_decode parse s =
     (let m = metadata s;
          bookingsStr =
            (if truthy (m ''bookings'') then Some (tmpl (m ''bookings''))
             else reassemble m (parseInt (tmpl (js_or (m ''bookings_chunks'') (Some ''0'')))) 0 [])
      in case bookingsStr of
           None \<Rightarrow> None
         | Some str \<Rightarrow>
             Some (case parse str of Some bookings \<Rightarrow> Inr bookings | None \<Rightarrow> Inl SyntaxError))"

section \<open>Booking codec: encoding\<close>

definition slim :: "cart_item list \<Rightarrow> slot list" where
  "slim c = map (\<lambda>b. \<lparr> date = js_or (date b) (dateStr b), time = time b,
                         location = location b, displayDate = displayDate b \<rparr>) c"

function store_chunks :: "string \<Rightarrow> nat \<Rightarrow> metadata \<Rightarrow> metadata" where
  \<comment> \<open>\<open>for (let i = 0; i < bookingsStr.length; i += 500)
        meta[`bookings_${Math.floor(i / 500)}`] = bookingsStr.slice(i, i + 500)\<close>\<close>
  "store_chunks bookingsStr i meta =
     (if i < length bookingsStr
      then store_chunks bookingsStr (i + 500)
             (meta(chunk_key (i div 500) \<mapsto> take 500 (drop i bookingsStr)))
      else meta)"
  by pat_completeness auto
termination
  by (relation "measure (\<lambda>(b, i, m). length b - i)") auto

declare store_chunks.simps [simp del]

definition checkout_metadata ::
  "(slot list \<Rightarrow> string) \<Rightarrow> cart_item list \<Rightarrow> string option \<Rightarrow> string option
     \<Rightarrow> string option \<Rightarrow> string option \<Rightarrow> metadata" where
  \<comment> \<open>the \<open>metadata\<close> of the session the checkout creates; \<open>stringify\<close> is \<open>JSON.stringify\<close>\<close>
  "checkout_metadata stringify cart customerName company product phone =
     (let meta = Map.empty(''customerName'' := customerName, ''company'' := company,
                           ''product'' := product, ''phone'' := phone);
          bookingsStr = stringify (slim cart)
      in if length bookingsStr \<le> 500
         then meta(''bookings'' \<mapsto> bookingsStr)
         else (store_chunks bookingsStr 0 meta)
                (''bookings_chunks'' \<mapsto> String_nat (nat \<lceil>real (length bookingsStr) / 500\<rceil>)))"

section \<open>The platform's JSON, for slot arrays\<close>

text \<open>
  Where a concrete \<open>JSON.stringify\<close> and \<open>JSON.parse\<close> are needed, these stand for
  them on the payload of the program, an array of objects with string members.
  \<open>JSON_stringify\<close> writes what \<open>JSON.stringify\<close> writes for such an array: no white
  space, the members that are defined, in order, strings quoted with the escapes of the
  language standard. \<open>JSON_parse\<close> reads that form, one character at a time, and fails on
  any other text; members it does not know are skipped.
\<close>

definition dquote :: char where
  "dquote = CHR 0x22"

definition bslash :: char where
  "bslash = CHR 0x5C"

definition quote_char :: "char \<Rightarrow> string" where
  "quote_char c =
     (if c = dquote then [bslash, dquote]
      else if c = bslash then [bslash, bslash]
      else if c = CHR 0x08 then [bslash, CHR ''b'']
      else if c = CHR 0x09 then [bslash, CHR ''t'']
      else if c = CHR 0x0A then [bslash, CHR ''n'']
      else if c = CHR 0x0C then [bslash, CHR ''f'']
      else if c = CHR 0x0D then [bslash, CHR ''r'']
      else if (of_char c :: nat) < 32
      then [bslash, CHR ''u'', CHR ''0'', CHR ''0'',
            ''0123456789abcdef'' ! (of_char c div 16), ''0123456789abcdef'' ! (of_char c mod 16)]
      else [c])"

definition QuoteJSONString :: "string \<Rightarrow> string" where
  "QuoteJSONString s = [dquote] @ concat (map quote_char s) @ [dquote]"

fun join :: "string \<Rightarrow> string list \<Rightarrow> string" where
  "join sep [] = []"
| "join sep [x] = x"
| "join sep (x # y # ys) = x @ sep @ join sep (y # ys)"

definition members :: "slot \<Rightarrow> (string \<times> string) list" where
  \<comment> \<open>the defined properties of a slot object, in the order the encoder writes them\<close>
  "members b =
     (case date b of Some v \<Rightarrow> [(''date'', v)] | None \<Rightarrow> [])
     @ (case time b of Some v \<Rightarrow> [(''time'', v)] | None \<Rightarrow> [])
     @ (case location b of Some v \<Rightarrow> [(''location'', v)] | None \<Rightarrow> [])
     @ (case displayDate b of Some v \<Rightarrow> [(''displayDate'', v)] | None \<Rightarrow> [])"

definition stringify_member :: "string \<times> string \<Rightarrow> string" where
  "stringify_member kv = QuoteJSONString (fst kv) @ '':'' @ QuoteJSONString (snd kv)"

definition stringify_slot :: "slot \<Rightarrow> string" where
  "stringify_slot b = ''{'' @ join '','' (map stringify_member (members b)) @ ''}''"

definition JSON_stringify :: "slot list \<Rightarrow> string" where
  "JSON_stringify bs = ''['' @ join '','' (map stringify_slot bs) @ '']''"

datatype str_mode = Plain | Esc | Uni nat nat  \<comment> \<open>hex digits still to read, value so far\<close>

datatype which = Key | Val

datatype mode =
    M_start | M_arr_first | M_arr_next | M_obj_first | M_obj_next
  | M_str which str_mode | M_colon | M_val_start | M_member_end | M_obj_end | M_done

record pstate =
  mode :: mode
  done_slots :: "slot list"
  cur :: slot
  member_key :: string
  chars :: string

definition empty_slot :: slot where
  "empty_slot = \<lparr> date = None, time = None, location = None, displayDate = None \<rparr>"

definition set_field :: "string \<Rightarrow> string \<Rightarrow> slot \<Rightarrow> slot" where
  "set_field k v b =
     (if k = ''date'' then b\<lparr> date := Some v \<rparr>
      else if k = ''time'' then b\<lparr> time := Some v \<rparr>
      else if k = ''location'' then b\<lparr> location := Some v \<rparr>
      else if k = ''displayDate'' then b\<lparr> displayDate := Some v \<rparr>
      else b)"

definition unescape :: "char \<Rightarrow> char option" where
  "unescape c =
     (if c = dquote then Some dquote
      else if c = bslash then Some bslash
      else if c = CHR ''/'' then Some CHR ''/''
      else if c = CHR ''b'' then Some (CHR 0x08)
      else if c = CHR ''f'' then Some (CHR 0x0C)
      else if c = CHR ''n'' then Some (CHR 0x0A)
      else if c = CHR ''r'' then Some (CHR 0x0D)
      else if c = CHR ''t'' then Some (CHR 0x09)
      else None)"

definition step_str :: "pstate \<Rightarrow> which \<Rightarrow> str_mode \<Rightarrow> char \<Rightarrow> pstate option" where
  \<comment> \<open>one character inside a quoted string\<close>
  "step_str st w sm c =
     (case sm of
        Plain \<Rightarrow>
          if c = dquote
          then Some (case w of
                       Key \<Rightarrow> st\<lparr> mode := M_colon, member_key := chars st \<rparr>
                     | Val \<Rightarrow> st\<lparr> mode := M_member_end,
                                   cur := set_field (member_key st) (chars st) (cur st) \<rparr>)
          else if c = bslash then Some (st\<lparr> mode := M_str w Esc \<rparr>)
          else if (of_char c :: nat) < 32 then None
          else Some (st\<lparr> chars := chars st @ [c] \<rparr>)
      | Esc \<Rightarrow>
          if c = CHR ''u'' then Some (st\<lparr> mode := M_str w (Uni 4 0) \<rparr>)
          else (case unescape c of
                  Some x \<Rightarrow> Some (st\<lparr> mode := M_str w Plain, chars := chars st @ [x] \<rparr>)
                | None \<Rightarrow> None)
      | Uni n acc \<Rightarrow>
          (case digit_of 16 c of
             None \<Rightarrow> None
           | Some d \<Rightarrow>
               if n \<le> 1
               then (if acc * 16 + d < 256
                     then Some (st\<lparr> mode := M_str w Plain,
                                    chars := chars st @ [char_of (acc * 16 + d)] \<rparr>)
                     else None)
               else Some (st\<lparr> mode := M_str w (Uni (n - 1) (acc * 16 + d)) \<rparr>)))"

definition step :: "pstate \<Rightarrow> char \<Rightarrow> pstate option" where
  "step st c =
     (case mode st of
        M_start \<Rightarrow> if c = CHR ''['' then Some (st\<lparr> mode := M_arr_first \<rparr>) else None
      | M_arr_first \<Rightarrow>
          if c = CHR ''{'' then Some (st\<lparr> mode := M_obj_first, cur := empty_slot \<rparr>)
          else if c = CHR '']'' then Some (st\<lparr> mode := M_done \<rparr>)
          else None
      | M_arr_next \<Rightarrow>
          if c = CHR ''{'' then Some (st\<lparr> mode := M_obj_first, cur := empty_slot \<rparr>) else None
      | M_obj_first \<Rightarrow>
          if c = dquote then Some (st\<lparr> mode := M_str Key Plain, chars := [] \<rparr>)
          else if c = CHR ''}''
          then Some (st\<lparr> mode := M_obj_end, done_slots := done_slots st @ [cur st] \<rparr>)
          else None
      | M_obj_next \<Rightarrow>
          if c = dquote then Some (st\<lparr> mode := M_str Key Plain, chars := [] \<rparr>) else None
      | M_str w sm \<Rightarrow> step_str st w sm c
      | M_colon \<Rightarrow> if c = CHR '':'' then Some (st\<lparr> mode := M_val_start \<rparr>) else None
      | M_val_start \<Rightarrow>
          if c = dquote then Some (st\<lparr> mode := M_str Val Plain, chars := [] \<rparr>) else None
      | M_member_end \<Rightarrow>
          if c = CHR '','' then Some (st\<lparr> mode := M_obj_next \<rparr>)
          else if c = CHR ''}''
          then Some (st\<lparr> mode := M_obj_end, done_slots := done_slots st @ [cur st] \<rparr>)
          else None
      | M_obj_end \<Rightarrow>
          if c = CHR '','' then Some (st\<lparr> mode := M_arr_next \<rparr>)
          else if c = CHR '']'' then Some (st\<lparr> mode := M_done \<rparr>)
          else None
      | M_done \<Rightarrow> None)"

fun run :: "pstate \<Rightarrow> string \<Rightarrow> pstate option" where
  "run st [] = Some st"
| "run st (c # cs) = (case step st c of None \<Rightarrow> None | Some st' \<Rightarrow> run st' cs)"

definition JSON_parse :: json_parse where
  "JSON_parse str =
     (case run \<lparr> mode = M_start, done_slots = [], cur = empty_slot, member_key = [], chars = [] \<rparr> str of
        None \<Rightarrow> None
      | Some st \<Rightarrow> if mode st = M_done then Some (done_slots st) else None)"

section \<open>Checkout: line items\<close>

record line_item =
  currency :: string
  name :: string
  description :: string
  unit_amount :: nat
  quantity :: nat

definition bullet :: string where
  \<comment> \<open>the separator U+2022 of the description, as its UTF-8 bytes\<close>
  "bullet = [CHR 0xE2, CHR 0x80, CHR 0xA2]"

definition lineItem :: "cart_item \<Rightarrow> line_item" where
  "lineItem item =
     \<lparr> currency = ''usd'',
       name = ''Demo at Woodlands Market - '' @ tmpl (location item),
       description = tmpl (displayDate item) @ '' '' @ bullet @ '' '' @ tmpl (time item),
       unit_amount = 3000,
       quantity = 1 \<rparr>"

definition lineItems :: "cart_item list \<Rightarrow> line_item list" where
  "lineItems cart = map lineItem cart"

definition amount_total_of :: "line_item list \<Rightarrow> nat" where
  \<comment> \<open>what the processor charges for a list of line items\<close>
  "amount_total_of items = sum_list (map (\<lambda>li. unit_amount li * quantity li) items)"

section \<open>Admin authentication\<close>

record env =
  ADMIN_PASSWORD :: "string option"

record admin_request =
  header_x_admin_password :: "string option"
  query_admin_password :: "string option"
  body_password :: "string option"

definition adminAuth :: "env \<Rightarrow> admin_request \<Rightarrow> 'a response option" where
  \<comment> \<open>\<open>None\<close>: the middleware called \<open>next()\<close>; \<open>Some r\<close>: it answered \<open>r\<close>\<close>
  "adminAuth e req =
     (let password = js_or (header_x_admin_password req) (query_admin_password req) in
      if \<not> truthy (ADMIN_PASSWORD e) then Some (Status 500 ''ADMIN_PASSWORD not configured'')
      else if password \<noteq> ADMIN_PASSWORD e then Some (Status 401 ''Invalid admin password'')
      else None)"

definition post_admin_auth :: "env \<Rightarrow> admin_request \<Rightarrow> unit response" where
  \<comment> \<open>\<open>POST /api/admin/auth\<close>; \<open>Json ()\<close> is \<open>{ success: true }\<close>\<close>
  "post_admin_auth e req =
     (if body_password req = ADMIN_PASSWORD e then Json ()
      else Status 401 ''Invalid password'')"

section \<open>Calendar export\<close>

text \<open>
  The \<open>Date\<close> object, the clock and the printing of numbers beyond \<open>2^53\<close> are the
  platform's. \<open>Date_parts\<close> stands for \<open>new Date(x)\<close> read through \<open>getFullYear\<close>,
  \<open>getMonth\<close> and \<open>getDate\<close> (\<open>None\<close> for an invalid date, where all three are \<open>NaN\<close>;
  the parts of a valid date are small integers), \<open>now\<close> for \<open>Date.now()\<close>, one reading
  per request, \<open>String_big\<close> for \<open>String(x)\<close> on a number beyond \<open>2^53\<close>.
\<close>

record date_lib =
  now :: nat
  Date_parts :: "string option \<Rightarrow> (int \<times> int \<times> int) option"
  String_big :: "int \<Rightarrow> string"

definition nl :: string where
  "nl = [CHR 0x0A]"

definition event_hours :: "string \<Rightarrow> number" where
  \<comment> \<open>the 24-hour start hour read from the time label\<close>
  "event_hours t =
     (let hours = parseInt (takeWhile (\<lambda>c. c \<noteq> CHR '':'') t);
          isPM = includes_str t ''PM'';
          hours = (if isPM \<and> hours \<noteq> Finite 12 then num_add hours 12 else hours);
          hours = (if \<not> isPM \<and> hours = Finite 12 then Finite 0 else hours)
      in hours)"

definition startHour :: "date_lib \<Rightarrow> string \<Rightarrow> string" where
  "startHour D t = padStart2 (String_num (String_big D) (event_hours t))"

definition endHour :: "date_lib \<Rightarrow> string \<Rightarrow> string" where
  "endHour D t = padStart2 (String_num (String_big D) (num_add (event_hours t) 3))"

definition date_part :: "((int \<times> int \<times> int) \<Rightarrow> int) \<Rightarrow> (int \<times> int \<times> int) option \<Rightarrow> number" where
  \<comment> \<open>one part of a date, \<open>NaN\<close> when the date is invalid\<close>
  "date_part f parts = (case parts of None \<Rightarrow> NaN | Some p \<Rightarrow> Finite (f p))"

definition vevent :: "date_lib \<Rightarrow> string option \<Rightarrow> string option \<Rightarrow> nat \<Rightarrow> slot \<Rightarrow> js_error + string" where
  \<comment> \<open>one loop body of \<open>generateICS\<close>; reading \<open>split\<close> off an absent time throws\<close>
  "vevent D company product index item =
     (case time item of
        None \<Rightarrow> Inl TypeError
      | Some t \<Rightarrow>
          let parts = Date_parts D (date item);
              year = String_num (String_big D) (date_part fst parts);
              month = padStart2 (String_num (String_big D) (num_add (date_part (\<lambda>p. fst (snd p)) parts) 1));
              day = padStart2 (String_num (String_big D) (date_part (\<lambda>p. snd (snd p)) parts));
              uid = ''wm-demo-'' @ String_nat (now D) @ ''-'' @ String_nat index
                    @ ''@woodlandsmarket.com''
          in Inr (''BEGIN:VEVENT'' @ nl
                @ ''DTSTART:'' @ year @ month @ day @ ''T'' @ startHour D t @ ''0000'' @ nl
                @ ''DTEND:'' @ year @ month @ day @ ''T'' @ endHour D t @ ''0000'' @ nl
                @ ''SUMMARY:Product Demo - '' @ tmpl company @ nl
                @ ''LOCATION:Woodlands Market, '' @ tmpl (location item) @ '', CA'' @ nl
                @ ''DESCRIPTION:Product: '' @ tmpl product @ [CHR 0x5C] @ ''n3-hour product demonstration slot.'' @ nl
                @ ''UID:'' @ uid @ nl
                @ ''STATUS:CONFIRMED'' @ nl
                @ ''END:VEVENT'' @ nl))"

fun vevents :: "date_lib \<Rightarrow> string option \<Rightarrow> string option \<Rightarrow> nat \<Rightarrow> slot list \<Rightarrow> js_error + string" where
  \<comment> \<open>\<open>bookings.forEach((item, index) => ...)\<close>, from the given index on\<close>
  "vevents D company product index [] = Inr []"
| "vevents D company product index (item # items) =
     (case vevent D company product index item of
        Inl e \<Rightarrow> Inl e
      | Inr ev \<Rightarrow>
          (case vevents D company product (index + 1) items of
             Inl e \<Rightarrow> Inl e
           | Inr evs \<Rightarrow> Inr (ev @ evs)))"

definition generateICS :: "date_lib \<Rightarrow> slot list \<Rightarrow> string option \<Rightarrow> string option \<Rightarrow> js_error + string" where
  "generateICS D bookings company product =
     (case vevents D company product 0 bookings of
        Inl e \<Rightarrow> Inl e
      | Inr evs \<Rightarrow>
          Inr (''BEGIN:VCALENDAR'' @ nl @ ''VERSION:2.0'' @ nl
               @ ''PRODID:-//Woodlands Market//Demo Scheduling//EN'' @ nl
               @ ''CALSCALE:GREGORIAN'' @ nl @ ''METHOD:PUBLISH'' @ nl
               @ evs @ ''END:VCALENDAR''))"

section \<open>Calls to the collaborators\<close>

text \<open>
  A handler returns its response together with the calls it made, in order, to the email
  provider and to the processor's refund-create operation. The response is \<open>None\<close> when
  the handler never answers, which is what a decoder that does not return leaves. The
  HTML body of an email is left out of the call; the attachment is the calendar text
  before its base64 encoding.
\<close>

datatype effect =
    EmailSend "string option" string "string option"  \<comment> \<open>recipient, subject, attachment\<close>
  | RefundCreate string                              \<comment> \<open>the payment intent refunded\<close>

record refund =
  refund_id :: string
  refund_amount :: nat

record stripe_client =
  sessions_retrieve :: "string \<Rightarrow> js_error + session"
  refunds_create :: "string \<Rightarrow> js_error + refund"

section \<open>Payment verification\<close>

record verify_ok =
  confirmationNumber :: string
  bookings :: "slot list"
  customerEmail :: "string option"

definition sendConfirmationEmail ::
  "date_lib \<Rightarrow> string option \<Rightarrow> string option \<Rightarrow> string option \<Rightarrow> slot list \<Rightarrow> string
     \<Rightarrow> js_error + effect list" where
  \<comment> \<open>a failure of the send itself is caught and logged; one of \<open>generateICS\<close> is not\<close>
  "sendConfirmationEmail D to company product bs confirmation =
     (case generateICS D bs company product of
        Inl e \<Rightarrow> Inl e
      | Inr icsContent \<Rightarrow> Inr [EmailSend to (''Demo Confirmed - '' @ confirmation) (Some icsContent)])"

definition verify_payment ::
  "json_parse \<Rightarrow> date_lib \<Rightarrow> stripe_client \<Rightarrow> string
     \<Rightarrow> verify_ok response option \<times> effect list" where
  \<comment> \<open>\<open>GET /api/verify-payment/:sessionId\<close>\<close>
  "verify_payment parse D stripe sessionId =
     (case sessions_retrieve stripe sessionId of
        Inl e \<Rightarrow> (Some (Status 500 (error_message e)), [])
      | Inr s \<Rightarrow>
          if payment_status s = ''paid''
          then (case verify_decode parse s of
                  None \<Rightarrow> (None, [])
                | Some (Inl e) \<Rightarrow> (Some (Status 500 (error_message e)), [])
                | Some (Inr bs) \<Rightarrow>
                    let str = String_nat (now D);
                        confirmation = ''WM-'' @ drop (length str - 8) str
                    in (case sendConfirmationEmail D (customer_email s) (metadata s ''company'')
                               (metadata s ''product'') bs confirmation of
                          Inl e \<Rightarrow> (Some (Status 500 (error_message e)), [])
                        | Inr sent \<Rightarrow>
                            (Some (Json \<lparr> confirmationNumber = confirmation, bookings = bs,
                                          customerEmail = customer_email s \<rparr>), sent)))
          else (Some (Status 400 ''Payment not completed''), []))"

section \<open>Refunds\<close>

record refund_ok =
  refundId :: string
  amount :: string

definition first_charge_refunded :: "payment_intent \<Rightarrow> bool" where
  \<comment> \<open>\<open>payment_intent?.charges?.data?.[0]?.refunded\<close>, read as a condition\<close>
  "first_charge_refunded p =
     (case p of
        PI_obj obj \<Rightarrow> (case charges_data obj of Some (c # cs) \<Rightarrow> refunded c | _ \<Rightarrow> False)
      | _ \<Rightarrow> False)"

definition refund_handler ::
  "json_parse \<Rightarrow> stripe_client \<Rightarrow> string \<Rightarrow> refund_ok response option \<times> effect list" where
  \<comment> \<open>the body of \<open>POST /api/admin/bookings/:sessionId/refund\<close>, behind \<open>adminAuth\<close>;
      the slots are decoded before the cancellation email is sent, and not used\<close>
  "refund_handler parse stripe sessionId =
     (case sessions_retrieve stripe sessionId of
        Inl e \<Rightarrow> (Some (Status 500 (error_message e)), [])
      | Inr s \<Rightarrow>
          if payment_intent s = PI_null \<or> payment_intent s = PI_id []
          then (Some (Status 400 ''No payment intent found for this session''), [])
          else
            let paymentIntentId =
                  (case payment_intent s of PI_id str \<Rightarrow> str | PI_obj obj \<Rightarrow> pi_id obj
                   | PI_null \<Rightarrow> [])
            in if first_charge_refunded (payment_intent s)
               then (Some (Status 400 ''This booking has already been refunded''), [])
               else (case refunds_create stripe paymentIntentId of
                       Inl e \<Rightarrow> (Some (Status 500 (error_message e)), [RefundCreate paymentIntentId])
                     | Inr r \<Rightarrow>
                         (case extractBookings parse s of
                            None \<Rightarrow> (None, [RefundCreate paymentIntentId])
                          | Some bs \<Rightarrow>
                              (Some (Json \<lparr> refundId = refund_id r,
                                            amount = toFixed2 (refund_amount r) \<rparr>),
                               [RefundCreate paymentIntentId,
                                EmailSend (customer_email s)
                                  ''Demo Booking Cancelled - Refund Issued'' None]))))"

definition post_refund ::
  "env \<Rightarrow> admin_request \<Rightarrow> json_parse \<Rightarrow> stripe_client \<Rightarrow> string
     \<Rightarrow> refund_ok response option \<times> effect list" where
  \<comment> \<open>the route: the middleware, then the handler\<close>
  "post_refund e req parse stripe sessionId =
     (case adminAuth e req of
        Some r \<Rightarrow> (Some r, [])
      | None \<Rightarrow> refund_handler parse stripe sessionId)"

section \<open>Admin analytics\<close>

text \<open>
  The aggregates of \<open>GET /api/admin/analytics\<close>, as a function of the sessions the
  handler has fetched. What the handler reads off \<open>Date\<close> objects is the platform's:
  \<open>month_key\<close> is the \<open>YYYY-MM\<close> key of a creation time (server-local),
  \<open>last_six_months\<close> the six keys counted back from now, \<open>getDay\<close> the day of the
  week of a date string (\<open>None\<close> for an invalid date), \<open>toISOString\<close> the ISO form of
  a creation time. Amounts in dollars are rationals here, where the source has floating
  point numbers; maps stand for the objects keyed by month, location, time and day.
  Each loop decodes the slots of the sessions it visits, so a loop returns only if
  every decoding in it does: \<open>forEach\<close> is a loop whose body may not return.
\<close>

fun forEach :: "('a \<Rightarrow> 'b \<Rightarrow> 'a option) \<Rightarrow> 'a \<Rightarrow> 'b list \<Rightarrow> 'a option" where
  "forEach f a [] = Some a"
| "forEach f a (x # xs) = (case f a x of None \<Rightarrow> None | Some a' \<Rightarrow> forEach f a' xs)"

record analytics_dates =
  month_key :: "nat \<Rightarrow> string"
  last_six_months :: "string list"
  getDay :: "string \<Rightarrow> nat option"
  toISOString :: "nat \<Rightarrow> string"

record tally =
  demos :: nat
  revenue :: rat

record month_entry = tally +
  market :: nat
  grassroots :: nat

definition dollars :: "session \<Rightarrow> rat" where
  \<comment> \<open>\<open>s.amount_total / 100\<close>\<close>
  "dollars s = of_nat (amount_total s) / 100"

definition paid :: "session list \<Rightarrow> session list" where
  "paid allSessions =
     filter (\<lambda>s. payment_status s = ''paid'' \<and> truthy (metadata s ''customerName'')) allSessions"

definition notRefunded :: "session list \<Rightarrow> session list" where
  "notRefunded allSessions =
     filter (\<lambda>s. \<not> first_charge_refunded (payment_intent s)) (paid allSessions)"

definition monthly_step ::
  "json_parse \<Rightarrow> analytics_dates \<Rightarrow> (string \<rightharpoonup> month_entry) \<Rightarrow> session
     \<Rightarrow> (string \<rightharpoonup> month_entry) option" where
  "monthly_step parse A monthlyData s =
     (let k = month_key A (created s)
      in case monthlyData k of
           None \<Rightarrow> Some monthlyData
         | Some e \<Rightarrow>
             (case extractBookings parse s of
                None \<Rightarrow> None
              | Some bs \<Rightarrow>
                  let numDemos = length bs
                  in Some (monthlyData(k \<mapsto> e\<lparr> revenue := revenue e + dollars s,
                                                demos := demos e + numDemos,
                                                market := market e + numDemos * 20,
                                                grassroots := grassroots e + numDemos * 10 \<rparr>))))"

definition monthlyData ::
  "json_parse \<Rightarrow> analytics_dates \<Rightarrow> session list \<Rightarrow> (string \<rightharpoonup> month_entry) option" where
  "monthlyData parse A allSessions =
     forEach (monthly_step parse A)
       (foldl (\<lambda>m k. m(k \<mapsto> \<lparr> demos = 0, revenue = 0, market = 0, grassroots = 0 \<rparr>))
          Map.empty (last_six_months A))
       (notRefunded allSessions)"

definition location_step :: "(string \<rightharpoonup> tally) \<Rightarrow> slot \<Rightarrow> (string \<rightharpoonup> tally)" where
  "location_step locationData b =
     (let loc = tmpl (js_or (location b) (Some ''Unknown''));
          e = (case locationData loc of None \<Rightarrow> \<lparr> demos = 0, revenue = 0 \<rparr> | Some e \<Rightarrow> e)
      in locationData(loc \<mapsto> e\<lparr> demos := demos e + 1, revenue := revenue e + 30 \<rparr>))"

definition locationData :: "json_parse \<Rightarrow> session list \<Rightarrow> (string \<rightharpoonup> tally) option" where
  "locationData parse allSessions =
     forEach (\<lambda>acc s. map_option (foldl location_step acc) (extractBookings parse s)) Map.empty
       (notRefunded allSessions)"

definition time_step :: "(string \<rightharpoonup> nat) \<Rightarrow> slot \<Rightarrow> (string \<rightharpoonup> nat)" where
  "time_step timeData b =
     (case timeData (tmpl (time b)) of
        Some n \<Rightarrow> timeData(tmpl (time b) \<mapsto> n + 1)
      | None \<Rightarrow> timeData(tmpl (time b) \<mapsto> 1))"

definition timeData :: "json_parse \<Rightarrow> session list \<Rightarrow> (string \<rightharpoonup> nat) option" where
  "timeData parse allSessions =
     forEach (\<lambda>acc s. map_option (foldl time_step acc) (extractBookings parse s))
       [''11:00 AM'' \<mapsto> 0, ''3:00 PM'' \<mapsto> 0]
       (notRefunded allSessions)"

definition dayNames :: "string list" where
  "dayNames = [''Sun'', ''Mon'', ''Tue'', ''Wed'', ''Thu'', ''Fri'', ''Sat'']"

definition day_step :: "analytics_dates \<Rightarrow> (string \<rightharpoonup> nat) \<Rightarrow> slot \<Rightarrow> (string \<rightharpoonup> nat)" where
  "day_step A dayData b =
     (if truthy (date b)
      then (case getDay A (tmpl (date b)) of
              None \<Rightarrow> dayData
            | Some d \<Rightarrow>
                if d < length dayNames
                then (case dayData (dayNames ! d) of
                        Some n \<Rightarrow> dayData(dayNames ! d \<mapsto> n + 1)
                      | None \<Rightarrow> dayData)
                else dayData)
      else dayData)"

definition dayData ::
  "json_parse \<Rightarrow> analytics_dates \<Rightarrow> session list \<Rightarrow> (string \<rightharpoonup> nat) option" where
  "dayData parse A allSessions =
     forEach (\<lambda>acc s. map_option (foldl (day_step A) acc) (extractBookings parse s))
       [''Mon'' \<mapsto> 0, ''Tue'' \<mapsto> 0, ''Wed'' \<mapsto> 0, ''Thu'' \<mapsto> 0, ''Fri'' \<mapsto> 0, ''Sat'' \<mapsto> 0,
        ''Sun'' \<mapsto> 0]
       (notRefunded allSessions)"

text \<open>
  The customer rollup is an object keyed by email; an association list keeps the order
  in which its keys were first set, which is the order of the object's values for keys
  that are not integers. A missing email is the key \<open>null\<close>.
\<close>

record 't customer =
  name :: "string option"
  email :: "string option"
  company :: "string option"
  bookings :: nat
  totalSpent :: rat
  firstBooking :: 't
  lastBooking :: 't
  products :: "string list"

record 't customer_row = "'t customer" +
  isRepeat :: bool

definition email_key :: "string option \<Rightarrow> string" where
  "email_key e = (case e of None \<Rightarrow> ''null'' | Some x \<Rightarrow> x)"

fun upsert :: "string \<Rightarrow> 'v \<Rightarrow> (string \<times> 'v) list \<Rightarrow> (string \<times> 'v) list" where
  \<comment> \<open>\<open>obj[k] = v\<close>: a known key keeps its place, a new one goes last\<close>
  "upsert k v [] = [(k, v)]"
| "upsert k v (p # ps) = (if fst p = k then (k, v) # ps else p # upsert k v ps)"

definition customer_update :: "slot list \<Rightarrow> session \<Rightarrow> nat customer \<Rightarrow> nat customer" where
  \<comment> \<open>what one session adds to the entry of its customer, given its decoded slots\<close>
  "customer_update bs s c0 =
     (let isRefunded = first_charge_refunded (payment_intent s);
          c = c0\<lparr> bookings := bookings c0 + length bs \<rparr>;
          c = (if \<not> isRefunded then c\<lparr> totalSpent := totalSpent c + dollars s \<rparr> else c);
          c = (if created s < firstBooking c then c\<lparr> firstBooking := created s \<rparr> else c);
          c = (if created s > lastBooking c then c\<lparr> lastBooking := created s \<rparr> else c);
          c = (if truthy (metadata s ''product'') \<and> tmpl (metadata s ''product'') \<notin> set (products c)
               then c\<lparr> products := products c @ [tmpl (metadata s ''product'')] \<rparr> else c)
      in c\<lparr> name := metadata s ''customerName'', company := metadata s ''company'' \<rparr>)"

definition customer_step ::
  "json_parse \<Rightarrow> (string \<times> nat customer) list \<Rightarrow> session
     \<Rightarrow> (string \<times> nat customer) list option" where
  "customer_step parse customers s =
     (let k = email_key (customer_email s);
          c = (case map_of customers k of
                 None \<Rightarrow> \<lparr> name = metadata s ''customerName'', email = customer_email s,
                            company = metadata s ''company'', bookings = 0, totalSpent = 0,
                            firstBooking = created s, lastBooking = created s, products = [] \<rparr>
               | Some c \<Rightarrow> c)
      in case extractBookings parse s of
           None \<Rightarrow> None
         | Some bs \<Rightarrow> Some (upsert k (customer_update bs s c) customers))"

definition customers :: "json_parse \<Rightarrow> session list \<Rightarrow> (string \<times> nat customer) list option" where
  "customers parse allSessions = forEach (customer_step parse) [] (paid allSessions)"

definition customer_row :: "analytics_dates \<Rightarrow> nat customer \<Rightarrow> string customer_row" where
  "customer_row A c =
     \<lparr> name = name c, email = email c, company = company c, bookings = bookings c,
       totalSpent = totalSpent c, firstBooking = toISOString A (firstBooking c),
       lastBooking = toISOString A (lastBooking c), products = products c,
       isRepeat = (bookings c > 1) \<rparr>"

definition customerList :: "analytics_dates \<Rightarrow> (string \<times> nat customer) list \<Rightarrow> string customer_row list" where
  \<comment> \<open>the rows, most bookings first; the sort is stable\<close>
  "customerList A cs = sort_key (\<lambda>c. - int (bookings c)) (map (customer_row A \<circ> snd) cs)"

record analytics =
  monthly :: "string \<rightharpoonup> month_entry"
  locations :: "string \<rightharpoonup> tally"
  timeSlots :: "string \<rightharpoonup> nat"
  popularDays :: "string \<rightharpoonup> nat"
  customer_rows :: "string customer_row list"  \<comment> \<open>the member \<open>customers\<close> of the response\<close>
  totalCustomers :: nat
  repeatCustomers :: nat

definition analytics_of :: "json_parse \<Rightarrow> analytics_dates \<Rightarrow> session list \<Rightarrow> analytics option" where
  \<comment> \<open>the five loops in the order of the source; \<open>None\<close> when one of them does not return\<close>
  "analytics_of parse A allSessions =
     (case monthlyData parse A allSessions of
        None \<Rightarrow> None
      | Some md \<Rightarrow>
     (case locationData parse allSessions of
        None \<Rightarrow> None
      | Some ld \<Rightarrow>
     (case timeData parse allSessions of
        None \<Rightarrow> None
      | Some td \<Rightarrow>
     (case dayData parse A allSessions of
        None \<Rightarrow> None
      | Some dd \<Rightarrow>
     (case customers parse allSessions of
        None \<Rightarrow> None
      | Some cs \<Rightarrow>
          Some \<lparr> monthly = md, locations = ld, timeSlots = td, popularDays = dd,
                 customer_rows = customerList A cs,
                 totalCustomers = length (customerList A cs),
                 repeatCustomers = length (filter isRepeat (customerList A cs)) \<rparr>)))))"

definition get_admin_analytics ::
  "env \<Rightarrow> admin_request \<Rightarrow> json_parse \<Rightarrow> analytics_dates \<Rightarrow> js_error + session list
     \<Rightarrow> analytics response option" where
  \<comment> \<open>the route, given the outcome of fetching the sessions page by page\<close>
  "get_admin_analytics e req parse A fetched =
     (case adminAuth e req of
        Some r \<Rightarrow> Some r
      | None \<Rightarrow>
          (case fetched of
             Inl err \<Rightarrow> Some (Status 500 (error_message err))
           | Inr allSessions \<Rightarrow> map_option Json (analytics_of parse A allSessions)))"

section \<open>The slot list a round trip is compared with\<close>

definition reduced :: "cart_item \<Rightarrow> slot" where
  \<comment> \<open>a cart item reduced to its four fields date, time, location, displayDate\<close>
  "reduced b = \<lparr> date = date b, time = time b, location = location b, displayDate = displayDate b \<rparr>"

section \<open>Example inputs\<close>

definition example_item :: cart_item where
  "example_item =
     \<lparr> date = Some ''2025-06-14'', time = Some ''11:00 AM'', location = Some ''Kentfield'',
       displayDate = Some ''Saturday, June 14, 2025'', dateStr = None \<rparr>"

definition example_long :: "nat \<Rightarrow> cart_item" where
  \<comment> \<open>a slot whose location has n characters: its serialization has 95 + n\<close>
  "example_long n = example_item\<lparr> location := Some (replicate n CHR ''x'') \<rparr>"

definition example_cart :: "cart_item list" where
  \<comment> \<open>six slots: their serialization has 619 characters\<close>
  "example_cart = [example_item, example_item, example_item, example_item, example_item, example_item]"

definition example_session :: "string \<Rightarrow> metadata \<Rightarrow> payment_intent \<Rightarrow> session" where
  "example_session status m p =
     \<lparr> session_id = ''cs_test_1'', payment_status = status, customer_email = Some ''ann@example.com'',
       amount_total = 3000, created = 1750000000, metadata = m, payment_intent = p \<rparr>"

definition example_stripe :: "session \<Rightarrow> stripe_client" where
  \<comment> \<open>a processor that holds one session and grants every refund\<close>
  "example_stripe s =
     \<lparr> sessions_retrieve =
         (\<lambda>i. if i = session_id s then Inr s else Inl (ProcessorError ''No such checkout.session'')),
       refunds_create = (\<lambda>p. Inr \<lparr> refund_id = ''re_1'', refund_amount = amount_total s \<rparr>) \<rparr>"

definition example_dates :: date_lib where
  \<comment> \<open>a platform that knows one date; no number beyond \<open>2^53\<close> is printed in the examples\<close>
  "example_dates =
     \<lparr> now = 1750000000000,
       Date_parts = (\<lambda>d. if d = Some ''2025-06-14'' then Some (2025, 5, 14) else None),
       String_big = (\<lambda>i. ''1e+21'') \<rparr>"




section \<open>Theorems\<close>

subsection \<open>Decimal numbers\<close>

lemma digit_char_cases: "d < 10 \<Longrightarrow> ''0123456789'' ! d \<in> set ''0123456789''"
  by (rule nth_mem) simp

lemma digit_of_digit: "d < 10 \<Longrightarrow> digit_of 10 (''0123456789'' ! d) = Some d"
proof -
  assume "d < 10"
  then have "d = 0 \<or> d = 1 \<or> d = 2 \<or> d = 3 \<or> d = 4 \<or> d = 5 \<or> d = 6 \<or> d = 7 \<or> d = 8 \<or> d = 9"
    by arith
  then show ?thesis
    by (elim disjE) (simp_all add: digit_of_def)
qed

lemma String_nat_nonempty: "String_nat n \<noteq> []"
  by (subst String_nat.simps) simp

lemma String_nat_all_digits: "c \<in> set (String_nat n) \<Longrightarrow> c \<in> set ''0123456789''"
proof (induction n arbitrary: c rule: String_nat.induct)
  case (1 n)
  show ?case
  proof (cases "n < 10")
    case True
    with "1.prems" have "c = ''0123456789'' ! n"
      by (subst (asm) String_nat.simps) simp
    with True digit_char_cases show ?thesis by blast
  next
    case False
    with "1.prems" have "c \<in> set (String_nat (n div 10)) \<or> c = ''0123456789'' ! (n mod 10)"
      by (subst (asm) String_nat.simps) auto
    moreover have "n mod 10 < 10" by simp
    ultimately show ?thesis
      using "1.IH" False digit_char_cases by blast
  qed
qed

lemma digits_value_snoc:
  "digits_value r (z @ [c]) = digits_value r z * r + (case digit_of r c of Some d \<Rightarrow> d | None \<Rightarrow> 0)"
  by (simp add: digits_value_def)

lemma digits_value_String_nat: "digits_value 10 (String_nat n) = n"
proof (induction n rule: String_nat.induct)
  case (1 n)
  show ?case
  proof (cases "n < 10")
    case True
    then show ?thesis
      by (subst String_nat.simps) (simp add: digits_value_def digit_of_digit)
  next
    case False
    have "digits_value 10 (String_nat n) = digits_value 10 (String_nat (n div 10) @ [''0123456789'' ! (n mod 10)])"
      using False by (subst String_nat.simps) simp
    also have "\<dots> = n div 10 * 10 + n mod 10"
      using "1.IH" False by (simp add: digits_value_snoc digit_of_digit)
    finally show ?thesis by simp
  qed
qed

subsection \<open>Whole numbers up to \<open>2^53\<close> are exact\<close>

lemma bitlen_bounds: "2 ^ k \<le> n \<Longrightarrow> n < 2 ^ Suc k \<Longrightarrow> bitlen n = Suc k"
proof (induction k arbitrary: n)
  case 0
  then have "n = 1" by simp
  then show ?case by (simp add: bitlen.simps)
next
  case (Suc k)
  have "2 ^ k \<le> n div 2" using Suc.prems(1) by simp
  moreover have "n div 2 < 2 ^ Suc k" using Suc.prems(2) by simp
  ultimately have "bitlen (n div 2) = Suc k" by (rule Suc.IH)
  moreover have "(0 :: nat) < 2 ^ Suc k" by simp
  then have "n \<noteq> 0" using Suc.prems(1) by linarith
  ultimately show ?case by (subst bitlen.simps) simp
qed

lemma round53_exact: "n \<le> 2 ^ 53 \<Longrightarrow> round53 n = n"
proof (cases "n < 2 ^ 53")
  case True
  then show ?thesis by (simp add: round53_def)
next
  case False
  assume "n \<le> 2 ^ 53"
  with False have n: "n = 2 ^ 53" by simp
  have b: "bitlen (2 ^ 53) = 54" using bitlen_bounds [of 53 "2 ^ 53"] by simp
  show ?thesis unfolding n round53_def b by (simp add: Let_def)
qed

lemma round53_stuck: "round53 (2 ^ 53 + 1) = 2 ^ 53"
proof -
  have b: "bitlen (2 ^ 53 + 1) = 54" using bitlen_bounds [of 53 "2 ^ 53 + 1"] by simp
  show ?thesis unfolding round53_def b by (simp add: Let_def)
qed

lemma to_double_exact: "\<bar>v\<bar> \<le> 2 ^ 53 \<Longrightarrow> to_double v = Finite v"
proof -
  assume a: "\<bar>v\<bar> \<le> 2 ^ 53"
  then have "nat \<bar>v\<bar> \<le> 2 ^ 53" by (simp add: nat_le_iff)
  then have r: "round53 (nat \<bar>v\<bar>) = nat \<bar>v\<bar>" by (rule round53_exact)
  have "nat \<bar>v\<bar> < (2 :: nat) ^ 1024" using \<open>nat \<bar>v\<bar> \<le> 2 ^ 53\<close>
    by (rule le_less_trans) simp
  then show ?thesis unfolding to_double_def r Let_def by auto
qed

lemma num_add_exact: "\<bar>i + k\<bar> \<le> 2 ^ 53 \<Longrightarrow> num_add (Finite i) k = Finite (i + k)"
  by (simp add: num_add_def to_double_exact)

subsection \<open>Reading digits\<close>

lemma digit_set_props:
  "c \<in> set ''0123456789'' \<Longrightarrow> digit_of 10 c \<noteq> None \<and> \<not> is_space c \<and> c \<noteq> CHR ''-'' \<and> c \<noteq> CHR ''+'' \<and> c \<noteq> CHR ''x'' \<and> c \<noteq> CHR ''X''"
  by (auto simp: digit_of_def is_space_def)

lemma parseInt_digits:
  assumes "z \<noteq> []" and "\<forall>c \<in> set z. c \<in> set ''0123456789''"
  shows "parseInt z = to_double (int (digits_value 10 z))"
proof -
  from assms obtain c cs where z: "z = c # cs" by (cases z) auto
  have c: "\<not> is_space c" "c \<noteq> CHR ''-''" "c \<noteq> CHR ''+''"
    using assms(2) z digit_set_props by auto
  have hex: "take 2 (c # cs) \<noteq> ''0x'' \<and> take 2 (c # cs) \<noteq> ''0X''"
  proof (cases cs)
    case Nil
    then show ?thesis by simp
  next
    case (Cons d ds)
    then have "d \<in> set ''0123456789''" using assms z by simp
    then have "d \<noteq> CHR ''x'' \<and> d \<noteq> CHR ''X''" using digit_set_props by blast
    then show ?thesis using Cons by simp
  qed
  have "\<forall>x \<in> set (c # cs). digit_of 10 x \<noteq> None"
    using assms(2) z digit_set_props by blast
  then have tw: "takeWhile (\<lambda>c. digit_of 10 c \<noteq> None) (c # cs) = c # cs"
    by (simp only: takeWhile_eq_all_conv) 
  have s0: "dropWhile is_space (c # cs) = c # cs"
    using c by simp
  have t1: "take 1 (c # cs) = [c]" by simp
  show ?thesis
    unfolding parseInt_def Let_def z s0 t1
    using c hex by (simp only: tw list.inject simp_thms if_False if_True list.distinct mult_1 of_nat_id)
qed

lemma parseInt_String_nat: "n \<le> 2 ^ 53 \<Longrightarrow> parseInt (String_nat n) = Finite (int n)"
  using parseInt_digits [of "String_nat n"] String_nat_nonempty String_nat_all_digits
  by (simp add: digits_value_String_nat to_double_exact)

subsection \<open>The JSON of slot arrays round-trips\<close>

lemma run_append:
  "run st (a @ b) = (case run st a of None \<Rightarrow> None | Some st' \<Rightarrow> run st' b)"
  by (induction a arbitrary: st) (auto split: option.splits)

lemma run_appendI: "run st a = Some st' \<Longrightarrow> run st' b = r \<Longrightarrow> run st (a @ b) = r"
  by (simp add: run_append)

lemma hex_digit_of: "d < 16 \<Longrightarrow> digit_of 16 (''0123456789abcdef'' ! d) = Some d"
proof -
  assume "d < 16"
  then have "d = 0 \<or> d = 1 \<or> d = 2 \<or> d = 3 \<or> d = 4 \<or> d = 5 \<or> d = 6 \<or> d = 7 \<or> d = 8 \<or> d = 9
     \<or> d = 10 \<or> d = 11 \<or> d = 12 \<or> d = 13 \<or> d = 14 \<or> d = 15"
    by arith
  then show ?thesis
    by (elim disjE) (simp_all add: digit_of_def)
qed

lemma digit_of_0: "digit_of 16 CHR ''0'' = Some 0"
  by (simp add: digit_of_def)

lemma run_quote_char:
  assumes "mode st = M_str w Plain"
  shows "run st (quote_char c) = Some (st\<lparr> chars := chars st @ [c] \<rparr>)"
proof -
  consider (q) "c = dquote" | (b) "c = bslash" | (c8) "c = CHR 0x08" | (c9) "c = CHR 0x09"
    | (ca) "c = CHR 0x0A" | (cc) "c = CHR 0x0C" | (cd) "c = CHR 0x0D"
    | (u) "c \<noteq> dquote" "c \<noteq> bslash" "c \<noteq> CHR 0x08" "c \<noteq> CHR 0x09" "c \<noteq> CHR 0x0A"
          "c \<noteq> CHR 0x0C" "c \<noteq> CHR 0x0D" "(of_char c :: nat) < 32"
    | (p) "c \<noteq> dquote" "c \<noteq> bslash" "c \<noteq> CHR 0x08" "c \<noteq> CHR 0x09" "c \<noteq> CHR 0x0A"
          "c \<noteq> CHR 0x0C" "c \<noteq> CHR 0x0D" "\<not> (of_char c :: nat) < 32"
    by (cases "(of_char c :: nat) < 32") auto
  then show ?thesis
  proof cases
    case q
    then show ?thesis using assms
      by (simp add: quote_char_def step_def step_str_def unescape_def dquote_def bslash_def)
  next
    case b
    then show ?thesis using assms
      by (simp add: quote_char_def step_def step_str_def unescape_def dquote_def bslash_def)
  next
    case c8
    then show ?thesis using assms
      by (simp add: quote_char_def step_def step_str_def unescape_def dquote_def bslash_def)
  next
    case c9
    then show ?thesis using assms
      by (simp add: quote_char_def step_def step_str_def unescape_def dquote_def bslash_def)
  next
    case ca
    then show ?thesis using assms
      by (simp add: quote_char_def step_def step_str_def unescape_def dquote_def bslash_def)
  next
    case cc
    then show ?thesis using assms
      by (simp add: quote_char_def step_def step_str_def unescape_def dquote_def bslash_def)
  next
    case cd
    then show ?thesis using assms
      by (simp add: quote_char_def step_def step_str_def unescape_def dquote_def bslash_def)
  next
    case u
    let ?n = "of_char c :: nat"
    have q: "quote_char c = [bslash, CHR ''u'', CHR ''0'', CHR ''0'',
            ''0123456789abcdef'' ! (?n div 16), ''0123456789abcdef'' ! (?n mod 16)]"
      using u by (simp add: quote_char_def)
    have d1: "digit_of 16 (''0123456789abcdef'' ! (?n div 16)) = Some (?n div 16)"
      using u(8) by (intro hex_digit_of) simp
    have d2: "digit_of 16 (''0123456789abcdef'' ! (?n mod 16)) = Some (?n mod 16)"
      by (intro hex_digit_of) simp
    have n: "?n div 16 * 16 + ?n mod 16 = ?n" by simp
    have lt: "?n < 256" using u(8) by simp
    show ?thesis
      unfolding q using assms lt
      by (simp add: step_def step_str_def d1 d2 digit_of_0 n bslash_def dquote_def del: div_mult_mod_eq)
  next
    case p
    then show ?thesis using assms
      by (simp add: quote_char_def step_def step_str_def dquote_def bslash_def)
  qed
qed

lemma run_quoted_body:
  "mode st = M_str w Plain \<Longrightarrow>
     run st (concat (map quote_char s)) = Some (st\<lparr> chars := chars st @ s \<rparr>)"
proof (induction s arbitrary: st)
  case Nil
  then show ?case by simp
next
  case (Cons c s)
  have "run st (quote_char c) = Some (st\<lparr> chars := chars st @ [c] \<rparr>)"
    using Cons.prems by (rule run_quote_char)
  moreover have "run (st\<lparr> chars := chars st @ [c] \<rparr>) (concat (map quote_char s))
      = Some (st\<lparr> chars := chars st @ [c] \<rparr>\<lparr> chars := chars (st\<lparr> chars := chars st @ [c] \<rparr>) @ s \<rparr>)"
    using Cons.prems by (intro Cons.IH) simp
  ultimately show ?case
    by (simp add: run_append)
qed

lemma run_key:
  assumes "mode st = M_obj_first \<or> mode st = M_obj_next"
  shows "run st (QuoteJSONString k) = Some (st\<lparr> mode := M_colon, chars := k, member_key := k \<rparr>)"
proof -
  let ?s1 = "st\<lparr> mode := M_str Key Plain, chars := [] \<rparr>"
  have 1: "run st [dquote] = Some ?s1"
    using assms by (auto simp: step_def)
  have 2: "run ?s1 (concat (map quote_char k)) = Some (?s1\<lparr> chars := chars ?s1 @ k \<rparr>)"
    by (intro run_quoted_body) simp
  have 3: "run (?s1\<lparr> chars := chars ?s1 @ k \<rparr>) [dquote] = Some (st\<lparr> mode := M_colon, chars := k, member_key := k \<rparr>)"
    by (simp add: step_def step_str_def)
  show ?thesis
    unfolding QuoteJSONString_def
    by (rule run_appendI [OF 1], rule run_appendI [OF 2], rule 3)
qed

lemma run_val:
  assumes "mode st = M_val_start"
  shows "run st (QuoteJSONString v)
         = Some (st\<lparr> mode := M_member_end, chars := v, cur := set_field (member_key st) v (cur st) \<rparr>)"
proof -
  let ?s1 = "st\<lparr> mode := M_str Val Plain, chars := [] \<rparr>"
  have 1: "run st [dquote] = Some ?s1"
    using assms by (auto simp: step_def)
  have 2: "run ?s1 (concat (map quote_char v)) = Some (?s1\<lparr> chars := chars ?s1 @ v \<rparr>)"
    by (intro run_quoted_body) simp
  have 3: "run (?s1\<lparr> chars := chars ?s1 @ v \<rparr>) [dquote]
           = Some (st\<lparr> mode := M_member_end, chars := v, cur := set_field (member_key st) v (cur st) \<rparr>)"
    by (simp add: step_def step_str_def)
  show ?thesis
    unfolding QuoteJSONString_def
    by (rule run_appendI [OF 1], rule run_appendI [OF 2], rule 3)
qed

lemma run_member:
  assumes "mode st = M_obj_first \<or> mode st = M_obj_next"
  shows "\<exists>st'. run st (stringify_member kv) = Some st' \<and> mode st' = M_member_end
           \<and> cur st' = set_field (fst kv) (snd kv) (cur st) \<and> done_slots st' = done_slots st"
proof -
  let ?s1 = "st\<lparr> mode := M_colon, chars := fst kv, member_key := fst kv \<rparr>"
  let ?s2 = "?s1\<lparr> mode := M_val_start \<rparr>"
  have 1: "run st (QuoteJSONString (fst kv)) = Some ?s1"
    using assms by (rule run_key)
  have 2: "run ?s1 '':'' = Some ?s2"
    by (simp add: step_def)
  have 3: "run ?s2 (QuoteJSONString (snd kv))
       = Some (?s2\<lparr> mode := M_member_end, chars := snd kv, cur := set_field (member_key ?s2) (snd kv) (cur ?s2) \<rparr>)"
    by (intro run_val) simp
  have "run st (stringify_member kv)
       = Some (?s2\<lparr> mode := M_member_end, chars := snd kv, cur := set_field (member_key ?s2) (snd kv) (cur ?s2) \<rparr>)"
    unfolding stringify_member_def
    by (rule run_appendI [OF 1], rule run_appendI [OF 2], rule 3)
  then show ?thesis by simp
qed

lemma join_Cons: "join sep (x # xs) = x @ concat (map (\<lambda>y. sep @ y) xs)"
  by (induction xs arbitrary: x) simp_all

lemma run_more_members:
  assumes "mode st = M_member_end"
  shows "\<exists>st'. run st (concat (map (\<lambda>y. '','' @ y) (map stringify_member kvs))) = Some st'
           \<and> mode st' = M_member_end
           \<and> cur st' = fold (\<lambda>kv b. set_field (fst kv) (snd kv) b) kvs (cur st)
           \<and> done_slots st' = done_slots st"
  using assms
proof (induction kvs arbitrary: st)
  case Nil
  then show ?case by simp
next
  case (Cons kv kvs)
  let ?s1 = "st\<lparr> mode := M_obj_next \<rparr>"
  have 1: "run st '','' = Some ?s1"
    using Cons.prems by (simp add: step_def)
  obtain s2 where 2: "run ?s1 (stringify_member kv) = Some s2" and m2: "mode s2 = M_member_end"
    and c2: "cur s2 = set_field (fst kv) (snd kv) (cur st)" and d2: "done_slots s2 = done_slots st"
    using run_member [of ?s1 kv] by auto
  obtain s3 where 3: "run s2 (concat (map (\<lambda>y. '','' @ y) (map stringify_member kvs))) = Some s3"
    and m3: "mode s3 = M_member_end"
    and c3: "cur s3 = fold (\<lambda>kv b. set_field (fst kv) (snd kv) b) kvs (cur s2)"
    and d3: "done_slots s3 = done_slots s2"
    using Cons.IH [OF m2] by auto
  have eq: "concat (map (\<lambda>y. '','' @ y) (map stringify_member (kv # kvs)))
      = '','' @ stringify_member kv @ concat (map (\<lambda>y. '','' @ y) (map stringify_member kvs))"
    by simp
  have "run st (concat (map (\<lambda>y. '','' @ y) (map stringify_member (kv # kvs)))) = Some s3"
    unfolding eq by (rule run_appendI [OF 1], rule run_appendI [OF 2], rule 3)
  then show ?case using m3 c3 d3 c2 d2 by simp
qed

lemma fold_members: "fold (\<lambda>kv b. set_field (fst kv) (snd kv) b) (members b) empty_slot = b"
  by (cases "date b"; cases "time b"; cases "location b"; cases "displayDate b")
     (simp_all add: members_def set_field_def empty_slot_def)

lemma run_slot:
  assumes "mode st = M_arr_first \<or> mode st = M_arr_next"
  shows "\<exists>st'. run st (stringify_slot b) = Some st' \<and> mode st' = M_obj_end
           \<and> done_slots st' = done_slots st @ [b]"
proof -
  let ?s1 = "st\<lparr> mode := M_obj_first, cur := empty_slot \<rparr>"
  have 1: "run st ''{'' = Some ?s1"
    using assms by (auto simp: step_def)
  show ?thesis
  proof (cases "members b")
    case Nil
    then have b: "b = empty_slot"
      using fold_members [of b] by simp
    have 2: "run ?s1 ''}'' = Some (?s1\<lparr> mode := M_obj_end, done_slots := done_slots st @ [empty_slot] \<rparr>)"
      by (simp add: step_def dquote_def)
    have "run st (stringify_slot b) = Some (?s1\<lparr> mode := M_obj_end, done_slots := done_slots st @ [empty_slot] \<rparr>)"
      unfolding stringify_slot_def Nil list.map join.simps append_Nil
      by (rule run_appendI [OF 1], rule 2)
    then show ?thesis
      using b by simp
  next
    case (Cons kv kvs)
    obtain s2 where 2: "run ?s1 (stringify_member kv) = Some s2" and m2: "mode s2 = M_member_end"
      and c2: "cur s2 = set_field (fst kv) (snd kv) empty_slot" and d2: "done_slots s2 = done_slots st"
      using run_member [of ?s1 kv] by auto
    obtain s3 where 3: "run s2 (concat (map (\<lambda>y. '','' @ y) (map stringify_member kvs))) = Some s3"
      and m3: "mode s3 = M_member_end"
      and c3: "cur s3 = fold (\<lambda>kv b. set_field (fst kv) (snd kv) b) kvs (cur s2)"
      and d3: "done_slots s3 = done_slots s2"
      using run_more_members [OF m2] by blast
    have "cur s3 = fold (\<lambda>kv b. set_field (fst kv) (snd kv) b) (members b) empty_slot"
      using c3 c2 Cons by simp
    then have c: "cur s3 = b" by (simp add: fold_members)
    have 4: "run s3 ''}'' = Some (s3\<lparr> mode := M_obj_end, done_slots := done_slots s3 @ [cur s3] \<rparr>)"
      using m3 by (simp add: step_def)
    have "run st (stringify_slot b) = Some (s3\<lparr> mode := M_obj_end, done_slots := done_slots s3 @ [cur s3] \<rparr>)"
      unfolding stringify_slot_def Cons list.map join_Cons append_assoc
      by (rule run_appendI [OF 1], rule run_appendI [OF 2], rule run_appendI [OF 3], rule 4)
    then show ?thesis using c d3 d2 by simp
  qed
qed

lemma run_more_slots:
  assumes "mode st = M_obj_end"
  shows "\<exists>st'. run st (concat (map (\<lambda>y. '','' @ y) (map stringify_slot bs))) = Some st'
           \<and> mode st' = M_obj_end \<and> done_slots st' = done_slots st @ bs"
  using assms
proof (induction bs arbitrary: st)
  case Nil
  then show ?case by simp
next
  case (Cons b bs)
  let ?s1 = "st\<lparr> mode := M_arr_next \<rparr>"
  have 1: "run st '','' = Some ?s1"
    using Cons.prems by (simp add: step_def)
  obtain s2 where 2: "run ?s1 (stringify_slot b) = Some s2" and m2: "mode s2 = M_obj_end"
    and d2: "done_slots s2 = done_slots st @ [b]"
    using run_slot [of ?s1 b] by auto
  obtain s3 where 3: "run s2 (concat (map (\<lambda>y. '','' @ y) (map stringify_slot bs))) = Some s3"
    and m3: "mode s3 = M_obj_end" and d3: "done_slots s3 = done_slots s2 @ bs"
    using Cons.IH [OF m2] by auto
  have eq: "concat (map (\<lambda>y. '','' @ y) (map stringify_slot (b # bs)))
      = '','' @ stringify_slot b @ concat (map (\<lambda>y. '','' @ y) (map stringify_slot bs))"
    by simp
  have "run st (concat (map (\<lambda>y. '','' @ y) (map stringify_slot (b # bs)))) = Some s3"
    unfolding eq by (rule run_appendI [OF 1], rule run_appendI [OF 2], rule 3)
  then show ?case using m3 d3 d2 by simp
qed

lemma JSON_roundtrip: "JSON_parse (JSON_stringify bs) = Some bs"
proof -
  let ?sempty = "\<lparr> mode = M_start, done_slots = [], cur = empty_slot, member_key = [], chars = [] \<rparr>"
  let ?s1 = "?sempty\<lparr> mode := M_arr_first \<rparr>"
  have 1: "run ?sempty ''['' = Some ?s1"
    by (simp add: step_def)
  show ?thesis
  proof (cases bs)
    case Nil
    have "run ?s1 '']'' = Some (?s1\<lparr> mode := M_done \<rparr>)"
      by (simp add: step_def)
    then show ?thesis
      using 1 Nil by (simp add: JSON_parse_def JSON_stringify_def step_def)
  next
    case (Cons b bs')
    obtain s2 where 2: "run ?s1 (stringify_slot b) = Some s2" and m2: "mode s2 = M_obj_end"
      and d2: "done_slots s2 = [b]"
      using run_slot [of ?s1 b] by auto
    obtain s3 where 3: "run s2 (concat (map (\<lambda>y. '','' @ y) (map stringify_slot bs'))) = Some s3"
      and m3: "mode s3 = M_obj_end" and d3: "done_slots s3 = done_slots s2 @ bs'"
      using run_more_slots [OF m2] by blast
    have 4: "run s3 '']'' = Some (s3\<lparr> mode := M_done \<rparr>)"
      using m3 by (simp add: step_def)
    have "run ?sempty (JSON_stringify bs) = Some (s3\<lparr> mode := M_done \<rparr>)"
      unfolding JSON_stringify_def Cons list.map join_Cons append_assoc
      by (rule run_appendI [OF 1], rule run_appendI [OF 2], rule run_appendI [OF 3], rule 4)
    then show ?thesis
      using d3 d2 Cons by (simp add: JSON_parse_def)
  qed
qed

lemma JSON_stringify_nonempty: "JSON_stringify bs \<noteq> []"
  by (simp add: JSON_stringify_def)

subsection \<open>Chunks\<close>

lemma String_nat_inj: "String_nat a = String_nat b \<Longrightarrow> a = b"
  by (metis digits_value_String_nat)

lemma chunk_key_inj [simp]: "chunk_key i = chunk_key j \<longleftrightarrow> i = j"
  by (auto simp: chunk_key_def dest: String_nat_inj)

lemma String_nat_not_chunks: "String_nat i \<noteq> ''chunks''"
proof
  assume "String_nat i = ''chunks''"
  then have "CHR ''c'' \<in> set (String_nat i)" by simp
  then have "CHR ''c'' \<in> set ''0123456789''" by (rule String_nat_all_digits)
  then show False by simp
qed

lemma chunk_key_other [simp]:
  "chunk_key i \<noteq> ''bookings''" "chunk_key i \<noteq> ''bookings_chunks''"
  "chunk_key i \<noteq> ''customerName''" "chunk_key i \<noteq> ''company''"
  "chunk_key i \<noteq> ''product''" "chunk_key i \<noteq> ''phone''"
  "''bookings'' \<noteq> chunk_key i" "''bookings_chunks'' \<noteq> chunk_key i"
  using String_nat_not_chunks [of i] by (auto simp: chunk_key_def)

lemma store_chunks_lookup:
  "store_chunks str (500 * k) meta key =
     (if \<exists>j. k \<le> j \<and> 500 * j < length str \<and> key = chunk_key j
      then Some (take 500 (drop (500 * (THE j. key = chunk_key j)) str))
      else meta key)"
proof (induction str "500 * k" meta arbitrary: k rule: store_chunks.induct)
  case (1 str meta)
  show ?case
  proof (cases "500 * k < length str")
    case False
    have "\<And>j. k \<le> j \<Longrightarrow> 500 * j < length str \<Longrightarrow> 500 * k < length str"
      by linarith
    with False have ne: "\<not> (\<exists>j. k \<le> j \<and> 500 * j < length str \<and> key = chunk_key j)"
      by blast
    have "store_chunks str (500 * k) meta = meta"
      using False by (subst store_chunks.simps) simp
    then show ?thesis
      using ne by (simp only: if_False)
  next
    case True
    let ?meta' = "meta(chunk_key (500 * k div 500) \<mapsto> take 500 (drop (500 * k) str))"
    have step: "store_chunks str (500 * k) meta = store_chunks str (500 * Suc k) ?meta'"
      using True by (subst store_chunks.simps) (simp add: add.commute)
    have IH: "store_chunks str (500 * Suc k) ?meta' key =
       (if \<exists>j. Suc k \<le> j \<and> 500 * j < length str \<and> key = chunk_key j
        then Some (take 500 (drop (500 * (THE j. key = chunk_key j)) str))
        else ?meta' key)"
      using "1.hyps" [of "Suc k"] True by (simp add: add.commute)
    show ?thesis
    proof (cases "key = chunk_key k")
      case k: True
      then have the: "(THE j. key = chunk_key j) = k" by simp
      have no: "\<not> (\<exists>j. Suc k \<le> j \<and> 500 * j < length str \<and> key = chunk_key j)"
        using k by auto
      have yes: "\<exists>j. k \<le> j \<and> 500 * j < length str \<and> key = chunk_key j"
        using k True by blast
      have m: "?meta' key = Some (take 500 (drop (500 * k) str))"
        using k by simp
      show ?thesis
        unfolding step IH using no yes by (simp only: if_False if_True m the)
    next
      case nk: False
      have ex: "(\<exists>j. Suc k \<le> j \<and> 500 * j < length str \<and> key = chunk_key j)
          \<longleftrightarrow> (\<exists>j. k \<le> j \<and> 500 * j < length str \<and> key = chunk_key j)"
        using nk by (metis Suc_leD Suc_leI le_neq_implies_less)
      have m: "?meta' key = meta key"
        using nk by simp
      show ?thesis
        unfolding step IH ex m by (rule refl)
    qed
  qed
qed

lemma store_chunks_chunk:
  "store_chunks str 0 meta (chunk_key j) =
     (if 500 * j < length str then Some (take 500 (drop (500 * j) str)) else meta (chunk_key j))"
  using store_chunks_lookup [of str 0 meta "chunk_key j"] by simp

lemma store_chunks_other:
  "(\<And>j. key \<noteq> chunk_key j) \<Longrightarrow> store_chunks str 0 meta key = meta key"
  using store_chunks_lookup [of str 0 meta key] by simp

lemma ceil_500: "nat \<lceil>real n / 500\<rceil> = (n + 499) div 500"
  by linarith

lemma reassemble_eq:
  assumes "c \<le> 2 ^ 53"
  shows "reassemble m (Finite c) i acc
           = Some (acc @ concat (map (\<lambda>j. tmpl (js_or (m (chunk_key j)) (Some []))) [i..<nat c]))"
proof (induction "nat c - i" arbitrary: i acc)
  case 0
  then have "\<not> int i < c" by linarith
  moreover from 0 have "[i..<nat c] = []" by simp
  ultimately show ?case
    by (subst reassemble.simps) (simp add: num_less_def)
next
  case (Suc d)
  then have lt: "int i < c" by linarith
  have "nat c \<le> 2 ^ 53" using assms by (simp add: nat_le_iff)
  moreover have "i < nat c" using lt by linarith
  ultimately have "Suc i \<le> 2 ^ 53" by linarith
  then have r: "round53 (Suc i) = Suc i" by (rule round53_exact)
  have d: "d = nat c - Suc i" using Suc.hyps(2) by linarith
  have u: "[i..<nat c] = i # [Suc i..<nat c]"
    using lt by (simp add: upt_conv_Cons)
  show ?case
    by (subst reassemble.simps) (simp add: num_less_def lt r Suc.hyps(1) [OF d] u)
qed

lemma reassemble_NaN: "reassemble m NaN i acc = Some acc"
  by (subst reassemble.simps) (simp add: num_less_def)

lemma round53_counter: "i \<le> 2 ^ 53 \<Longrightarrow> round53 (i + 1) \<le> 2 ^ 53"
proof (cases "i = 2 ^ 53")
  case True
  have "round53 (i + 1) = 2 ^ 53" unfolding True by (rule round53_stuck)
  then show ?thesis by simp
next
  case False
  assume "i \<le> 2 ^ 53"
  with False have "i + 1 \<le> 2 ^ 53" by simp
  then show ?thesis by (simp add: round53_exact)
qed

lemma reassemble_Some_bound:
  assumes "reassemble m chunks i acc = Some y"
  shows "\<not> (i \<le> 2 ^ 53 \<and> (\<forall>j \<le> 2 ^ 53. num_less j chunks))"
proof -
  have step: "\<not> (i \<le> 2 ^ 53 \<and> (\<forall>j \<le> 2 ^ 53. num_less j chunks))"
    if ih: "\<And>a b c d y. f a b c d = Some y \<Longrightarrow> \<not> (c \<le> 2 ^ 53 \<and> (\<forall>j \<le> 2 ^ 53. num_less j b))"
    and eq: "(if num_less i chunks
              then f m chunks (round53 (i + 1)) (acc @ tmpl (js_or (m (chunk_key i)) (Some [])))
              else Some acc) = Some y"
    for f :: "metadata \<Rightarrow> number \<Rightarrow> nat \<Rightarrow> string \<Rightarrow> string option" and m chunks i acc y
  proof
    assume a: "i \<le> 2 ^ 53 \<and> (\<forall>j \<le> 2 ^ 53. num_less j chunks)"
    then have "num_less i chunks" by blast
    with eq have "f m chunks (round53 (i + 1)) (acc @ tmpl (js_or (m (chunk_key i)) (Some []))) = Some y"
      by simp
    then have "\<not> (round53 (i + 1) \<le> 2 ^ 53 \<and> (\<forall>j \<le> 2 ^ 53. num_less j chunks))"
      by (rule ih)
    with a round53_counter show False by blast
  qed
  show ?thesis
    by (rule reassemble.raw_induct
          [where P = "\<lambda>m chunks i acc y. \<not> (i \<le> 2 ^ 53 \<and> (\<forall>j \<le> 2 ^ 53. num_less j chunks))",
           OF step assms])
qed

lemma reassemble_never:
  assumes "i \<le> 2 ^ 53" and "\<forall>j \<le> 2 ^ 53. num_less j chunks"
  shows "reassemble m chunks i acc = None"
proof (cases "reassemble m chunks i acc")
  case None
  then show ?thesis .
next
  case (Some y)
  then show ?thesis using reassemble_Some_bound assms by blast
qed

lemma reassemble_beyond: "2 ^ 53 < c \<Longrightarrow> reassemble m (Finite c) 0 [] = None"
  by (rule reassemble_never) (auto simp: num_less_def)

lemma reassemble_Infinity: "reassemble m PosInfinity 0 [] = None"
  by (rule reassemble_never) (auto simp: num_less_def)

lemma concat_chunks: "concat (map (\<lambda>j. take 500 (drop (500 * j) str)) [0..<n]) = take (500 * n) str"
proof (induction n)
  case 0
  then show ?case by simp
next
  case (Suc n)
  have "take (500 * n) str @ take 500 (drop (500 * n) str) = take (500 * n + 500) str"
    by (simp add: take_add)
  with Suc show ?case by (simp add: add.commute)
qed

subsection \<open>Codec\<close>

lemma checkout_metadata_small:
  assumes "length (stringify (slim cart)) \<le> 500"
  shows "checkout_metadata stringify cart customerName companyName product phone
         = (Map.empty(''customerName'' := customerName, ''company'' := companyName,
                      ''product'' := product, ''phone'' := phone))
             (''bookings'' \<mapsto> stringify (slim cart))"
  using assms by (simp add: checkout_metadata_def Let_def)

lemma checkout_metadata_large:
  assumes "500 < length (stringify (slim cart))"
  shows "checkout_metadata stringify cart customerName companyName product phone
         = (store_chunks (stringify (slim cart)) 0
              (Map.empty(''customerName'' := customerName, ''company'' := companyName,
                         ''product'' := product, ''phone'' := phone)))
             (''bookings_chunks'' \<mapsto> String_nat (nat \<lceil>real (length (stringify (slim cart))) / 500\<rceil>))"
  using assms by (simp add: checkout_metadata_def Let_def)

lemma large_chunk:
  assumes "500 < length (stringify (slim cart))"
  shows "checkout_metadata stringify cart customerName companyName product phone (chunk_key i)
         = (if i < nat \<lceil>real (length (stringify (slim cart))) / 500\<rceil>
            then Some (take 500 (drop (500 * i) (stringify (slim cart)))) else None)"
proof -
  have "500 * i < length (stringify (slim cart))
        \<longleftrightarrow> i < nat \<lceil>real (length (stringify (slim cart))) / 500\<rceil>"
    unfolding ceil_500 by linarith
  then show ?thesis
    unfolding checkout_metadata_large [of stringify cart customerName companyName product phone, OF assms]
    by (simp add: store_chunks_chunk)
qed

lemma large_bookings:
  assumes "500 < length (stringify (slim cart))"
  shows "checkout_metadata stringify cart customerName companyName product phone ''bookings'' = None"
  unfolding checkout_metadata_large [of stringify cart customerName companyName product phone, OF assms]
  by (simp add: store_chunks_other)

lemma large_sentinel:
  assumes "500 < length (stringify (slim cart))"
  shows "checkout_metadata stringify cart customerName companyName product phone ''bookings_chunks''
         = Some (String_nat (nat \<lceil>real (length (stringify (slim cart))) / 500\<rceil>))"
  unfolding checkout_metadata_large [of stringify cart customerName companyName product phone, OF assms] by simp

lemma chunks_cover:
  "concat (map (\<lambda>i. take 500 (drop (500 * i) str)) [0..<nat \<lceil>real (length str) / 500\<rceil>]) = str"
proof -
  have "length str \<le> 500 * nat \<lceil>real (length str) / 500\<rceil>"
    unfolding ceil_500 by linarith
  then show ?thesis
    by (simp add: concat_chunks)
qed

text \<open>
  C2. Whatever blob \<open>str\<close> the serializer returns for the cart: when it has at most 500
  characters the encoder stores it whole under \<open>bookings\<close> and writes neither the
  sentinel nor any chunk key; when it is longer, \<open>bookings\<close> is absent, the key
  \<open>bookings_i\<close> holds characters 500 i up to 500 i + 500 of the blob for every i below
  n = ceil(length / 500) and no other chunk key is set, every chunk has at most 500
  characters, the chunks in index order make up the blob, and \<open>bookings_chunks\<close> is the
  decimal string of n. A blob of 500 characters uses the single key, one of 501
  characters the chunked form with \<open>bookings_chunks\<close> equal to 2.
\<close>

theorem C2_chunk_layout:
  "(let str = stringify (slim cart);
        meta = checkout_metadata stringify cart customerName companyName product phone;
        n = nat \<lceil>real (length str) / 500\<rceil>
    in (length str \<le> 500 \<longrightarrow>
          meta ''bookings'' = Some str \<and> meta ''bookings_chunks'' = None
          \<and> (\<forall>i. meta (chunk_key i) = None))
     \<and> (500 < length str \<longrightarrow>
          meta ''bookings'' = None \<and> meta ''bookings_chunks'' = Some (String_nat n)
          \<and> (\<forall>i. meta (chunk_key i)
                   = (if i < n then Some (take 500 (drop (500 * i) str)) else None))
          \<and> (\<forall>i < n. length (take 500 (drop (500 * i) str)) \<le> 500)
          \<and> concat (map (\<lambda>i. take 500 (drop (500 * i) str)) [0..<n]) = str)
     \<and> (length str = 500 \<longrightarrow> meta ''bookings'' = Some str \<and> meta ''bookings_chunks'' = None)
     \<and> (length str = 501 \<longrightarrow> meta ''bookings'' = None \<and> meta ''bookings_chunks'' = Some ''2'')
     \<and> chunk_key 0 = ''bookings_0'' \<and> chunk_key 1 = ''bookings_1''
     \<and> chunk_key 10 = ''bookings_10'')"
proof -
  let ?str = "stringify (slim cart)"
  let ?meta = "checkout_metadata stringify cart customerName companyName product phone"
  let ?n = "nat \<lceil>real (length ?str) / 500\<rceil>"
  have small: "?meta ''bookings'' = Some ?str \<and> ?meta ''bookings_chunks'' = None
      \<and> (\<forall>i. ?meta (chunk_key i) = None)" if "length ?str \<le> 500"
    unfolding checkout_metadata_small [of stringify cart customerName companyName product phone, OF that] by simp
  have large: "?meta ''bookings'' = None \<and> ?meta ''bookings_chunks'' = Some (String_nat ?n)
      \<and> (\<forall>i. ?meta (chunk_key i) = (if i < ?n then Some (take 500 (drop (500 * i) ?str)) else None))
      \<and> (\<forall>i < ?n. length (take 500 (drop (500 * i) ?str)) \<le> 500)
      \<and> concat (map (\<lambda>i. take 500 (drop (500 * i) ?str)) [0..<?n]) = ?str" if "500 < length ?str"
    using large_bookings [of stringify cart customerName companyName product phone, OF that] large_sentinel [of stringify cart customerName companyName product phone, OF that] large_chunk [of stringify cart customerName companyName product phone, OF that] chunks_cover
    by simp
  have two: "String_nat (nat \<lceil>real (501::nat) / 500\<rceil>) = ''2''"
    by (simp add: String_nat.simps)
  have b501: "?meta ''bookings'' = None \<and> ?meta ''bookings_chunks'' = Some ''2''" if "length ?str = 501"
    using large that two by simp
  have keys: "chunk_key 0 = ''bookings_0''" "chunk_key 1 = ''bookings_1''"
    "chunk_key 10 = ''bookings_10''"
    by (simp_all add: chunk_key_def String_nat.simps)
  show ?thesis
    unfolding Let_def using small large b501 keys by simp
qed

lemma slim_reduced: "\<forall>b \<in> set cart. truthy (date b) \<Longrightarrow> slim cart = map reduced cart"
  by (simp add: slim_def reduced_def js_or_def)

lemma chunk_count_le: "500 < n \<Longrightarrow> nat \<lceil>real n / 500\<rceil> \<le> n"
  unfolding ceil_500 by linarith

lemma reassemble_encoded:
  assumes "500 < length (stringify (slim cart))" and "length (stringify (slim cart)) < 2 ^ 53"
  shows "reassemble (checkout_metadata stringify cart customerName companyName product phone)
           (Finite (int (nat \<lceil>real (length (stringify (slim cart))) / 500\<rceil>))) 0 []
         = Some (stringify (slim cart))"
proof -
  let ?str = "stringify (slim cart)"
  let ?meta = "checkout_metadata stringify cart customerName companyName product phone"
  let ?n = "nat \<lceil>real (length ?str) / 500\<rceil>"
  have "tmpl (js_or (?meta (chunk_key j)) (Some [])) = take 500 (drop (500 * j) ?str)" if "j < ?n" for j
    using that by (simp add: large_chunk [of stringify cart customerName companyName product phone, OF assms(1)] js_or_def truthy_def tmpl_def)
  then have eq: "map (\<lambda>j. tmpl (js_or (?meta (chunk_key j)) (Some []))) [0..<?n]
           = map (\<lambda>j. take 500 (drop (500 * j) ?str)) [0..<?n]"
    by simp
  have "?n \<le> length ?str"
    using assms(1) by (rule chunk_count_le)
  with assms(2) have "?n \<le> 2 ^ 53" by linarith
  then have n: "int ?n \<le> 2 ^ 53"
    by (metis of_nat_le_iff of_nat_numeral of_nat_power)
  have "reassemble ?meta (Finite (int ?n)) 0 []
        = Some (concat (map (\<lambda>j. tmpl (js_or (?meta (chunk_key j)) (Some []))) [0..<?n]))"
    using reassemble_eq [OF n, of ?meta 0 "[]"] by simp
  also have "\<dots> = Some (concat (map (\<lambda>j. take 500 (drop (500 * j) ?str)) [0..<?n]))"
    by (simp only: eq)
  also have "\<dots> = Some ?str"
    by (simp only: chunks_cover)
  finally show ?thesis .
qed

lemma sentinel_encoded:
  assumes "500 < length (str :: string)" and "length str < 2 ^ 53"
  shows "parseInt (String_nat (nat \<lceil>real (length str) / 500\<rceil>))
         = Finite (int (nat \<lceil>real (length str) / 500\<rceil>))"
proof -
  have "nat \<lceil>real (length str) / 500\<rceil> \<le> length str"
    using assms(1) by (rule chunk_count_le)
  with assms(2) have "nat \<lceil>real (length str) / 500\<rceil> \<le> 2 ^ 53" by linarith
  then show ?thesis by (rule parseInt_String_nat)
qed

lemma decode_encoded:
  assumes m: "metadata s = checkout_metadata stringify cart customerName companyName product phone"
    and rt: "parse (stringify (slim cart)) = Some (slim cart)"
    and ne: "stringify (slim cart) \<noteq> []"
    and len: "length (stringify (slim cart)) < 2 ^ 53"
  shows "extractBookings parse s = Some (slim cart)"
    and "verify_decode parse s = Some (Inr (slim cart))"
proof -
  let ?str = "stringify (slim cart)"
  show "extractBookings parse s = Some (slim cart)"
  proof (cases "length ?str \<le> 500")
    case True
    then have "metadata s ''bookings'' = Some ?str"
      unfolding m checkout_metadata_small [of stringify cart customerName companyName product phone, OF True] by simp
    then show ?thesis
      using rt ne by (simp add: extractBookings_def truthy_def tmpl_def Let_def)
  next
    case False
    then have l: "500 < length ?str" by simp
    have "String_nat (nat \<lceil>real (length ?str) / 500\<rceil>) \<noteq> []"
      by (rule String_nat_nonempty)
    then show ?thesis
      using rt ne large_bookings [of stringify cart customerName companyName product phone, OF l] large_sentinel [of stringify cart customerName companyName product phone, OF l] reassemble_encoded [of stringify cart customerName companyName product phone, OF l len]
      by (simp add: extractBookings_def m truthy_def tmpl_def Let_def sentinel_encoded [OF l len])
  qed
  show "verify_decode parse s = Some (Inr (slim cart))"
  proof (cases "length ?str \<le> 500")
    case True
    then have "metadata s ''bookings'' = Some ?str"
      unfolding m checkout_metadata_small [of stringify cart customerName companyName product phone, OF True] by simp
    then show ?thesis
      using rt ne by (simp add: verify_decode_def truthy_def tmpl_def Let_def)
  next
    case False
    then have l: "500 < length ?str" by simp
    have "String_nat (nat \<lceil>real (length ?str) / 500\<rceil>) \<noteq> []"
      by (rule String_nat_nonempty)
    then show ?thesis
      using rt ne large_bookings [of stringify cart customerName companyName product phone, OF l] large_sentinel [of stringify cart customerName companyName product phone, OF l] reassemble_encoded [of stringify cart customerName companyName product phone, OF l len]
      by (simp add: verify_decode_def m truthy_def tmpl_def js_or_def Let_def sentinel_encoded [OF l len])
  qed
qed

text \<open>
  C1. For a session whose metadata is what the checkout encoder wrote for a cart, of any
  number of slots (so also of 0 to 50), both decoders return, and return the slot list
  the encoder serialized, \<open>slim cart\<close>, whether the blob went under the single key or
  was split into chunks. The blob is a string of the language, which has fewer than
  \<open>2^53\<close> characters; the chunk count is then a number the sentinel carries exactly.
  When every slot of the cart has a non-empty date, as a calendar date is, the decoded
  list is the cart itself reduced to its four fields. The empty cart decodes to the
  empty list.
\<close>

theorem C1_codec_roundtrip:
  assumes "metadata s = checkout_metadata JSON_stringify cart customerName companyName product phone"
    and "length (JSON_stringify (slim cart)) < 2 ^ 53"
  shows "extractBookings JSON_parse s = Some (slim cart)
         \<and> verify_decode JSON_parse s = Some (Inr (slim cart))
         \<and> ((\<forall>b \<in> set cart. truthy (date b)) \<longrightarrow>
               extractBookings JSON_parse s = Some (map reduced cart)
               \<and> verify_decode JSON_parse s = Some (Inr (map reduced cart)))
         \<and> (cart = [] \<longrightarrow> extractBookings JSON_parse s = Some [])"
proof -
  have a: "extractBookings JSON_parse s = Some (slim cart)"
    and b: "verify_decode JSON_parse s = Some (Inr (slim cart))"
    using decode_encoded [of s JSON_stringify cart customerName companyName product phone JSON_parse, OF assms(1) JSON_roundtrip JSON_stringify_nonempty assms(2)] by blast+
  have c: "cart = [] \<longrightarrow> slim cart = []"
    by (simp add: slim_def)
  show ?thesis
    using a b c slim_reduced [of cart] by auto
qed

lemmas json_eval = JSON_parse_def step_def step_str_def unescape_def set_field_def empty_slot_def
  dquote_def bslash_def digit_of_def Let_def

lemma extractBookings_default:
  "(metadata s ''bookings'' = None \<and> metadata s ''bookings_chunks'' = None
      \<longrightarrow> extractBookings parse s = Some [])
   \<and> (truthy (metadata s ''bookings'') \<and> parse (tmpl (metadata s ''bookings'')) = None
      \<longrightarrow> extractBookings parse s = Some [])
   \<and> (\<not> truthy (metadata s ''bookings'') \<and> truthy (metadata s ''bookings_chunks'')
       \<and> reassemble (metadata s) (parseInt (tmpl (metadata s ''bookings_chunks''))) 0 [] = Some str
       \<and> parse str = None
      \<longrightarrow> extractBookings parse s = Some [])"
  by (auto simp: extractBookings_def truthy_def tmpl_def Let_def split: option.splits)

lemma parseInt_0: "parseInt ''0'' = Finite 0"
proof -
  have "parseInt ''0'' = to_double 0"
    by (simp add: parseInt_def digit_of_def digits_value_def is_space_def Let_def)
  then show ?thesis by (simp add: to_double_exact)
qed

lemma parseInt_beyond: "parseInt ''9007199254740994'' = Finite 9007199254740994"
proof -
  have b: "bitlen 9007199254740994 = 54"
    using bitlen_bounds [of 53 9007199254740994] by simp
  have r: "round53 9007199254740994 = 9007199254740994"
    unfolding round53_def b by (simp add: Let_def)
  have "parseInt ''9007199254740994'' = to_double 9007199254740994"
    by (simp add: parseInt_def digit_of_def digits_value_def is_space_def Let_def)
  then show ?thesis
    by (simp add: to_double_def r)
qed

text \<open>
  C6. The claim fails in the code. On a paid session whose metadata has neither
  \<open>bookings\<close> nor \<open>bookings_chunks\<close>, the decoder written out in the verify handler
  joins no chunks and parses the empty text, which throws, and the handler answers 500;
  \<open>extractBookings\<close> returns the empty list on the same session. On a session whose
  only payload is a sentinel beyond \<open>2^53\<close>, here \<open>2^53 + 2\<close>, neither decoder returns:
  the counter of the joining loop stops growing at \<open>2^53\<close>, and the handler never
  answers.
\<close>

theorem C6_decoding_fails:
  "verify_decode JSON_parse (example_session ''paid'' Map.empty PI_null) = Some (Inl SyntaxError)
   \<and> verify_payment JSON_parse example_dates
         (example_stripe (example_session ''paid'' Map.empty PI_null)) ''cs_test_1''
       = (Some (Status 500 ''SyntaxError''), [])
   \<and> extractBookings JSON_parse (example_session ''paid'' Map.empty PI_null) = Some []
   \<and> extractBookings JSON_parse
         (example_session ''paid'' [''bookings_chunks'' \<mapsto> ''9007199254740994''] PI_null) = None
   \<and> verify_decode JSON_parse
         (example_session ''paid'' [''bookings_chunks'' \<mapsto> ''9007199254740994''] PI_null) = None
   \<and> verify_payment JSON_parse example_dates
         (example_stripe (example_session ''paid'' [''bookings_chunks'' \<mapsto> ''9007199254740994''] PI_null))
         ''cs_test_1''
       = (None, [])"
proof -
  let ?sempty = "example_session ''paid'' Map.empty PI_null"
  let ?sbig = "example_session ''paid'' [''bookings_chunks'' \<mapsto> ''9007199254740994''] PI_null"
  have r: "reassemble Map.empty (Finite 0) 0 [] = Some []"
    by (subst reassemble.simps) (simp add: num_less_def)
  have j: "JSON_parse [] = None"
    by (simp add: json_eval)
  have d: "verify_decode JSON_parse ?sempty = Some (Inl SyntaxError)"
    by (simp add: verify_decode_def example_session_def truthy_def tmpl_def js_or_def parseInt_0 r j)
  have g: "sessions_retrieve (example_stripe (example_session ''paid'' m PI_null)) ''cs_test_1''
           = Inr (example_session ''paid'' m PI_null)" for m
    by (simp add: example_stripe_def example_session_def)
  have paid: "payment_status (example_session ''paid'' m PI_null) = ''paid''" for m
    by (simp add: example_session_def)
  have v: "verify_payment JSON_parse example_dates (example_stripe ?sempty) ''cs_test_1''
           = (Some (Status 500 ''SyntaxError''), [])"
    by (simp add: d g paid verify_payment_def error_message_def)
  have e: "extractBookings JSON_parse ?sempty = Some []"
    by (simp add: extractBookings_def example_session_def truthy_def)
  have n: "reassemble m (Finite 9007199254740994) 0 [] = None" for m
    by (rule reassemble_beyond) simp
  have eb: "extractBookings JSON_parse ?sbig = None"
    by (simp add: extractBookings_def example_session_def truthy_def tmpl_def parseInt_beyond n)
  have db: "verify_decode JSON_parse ?sbig = None"
    by (simp add: verify_decode_def example_session_def truthy_def tmpl_def js_or_def parseInt_beyond n)
  have vb: "verify_payment JSON_parse example_dates (example_stripe ?sbig) ''cs_test_1'' = (None, [])"
    by (simp add: db g paid verify_payment_def)
  show ?thesis
    using d v e eb db vb by (intro conjI)
qed

subsection \<open>Handlers\<close>

lemma adminAuth_unconfigured:
  "\<not> truthy (ADMIN_PASSWORD e) \<Longrightarrow> adminAuth e req = Some (Status 500 ''ADMIN_PASSWORD not configured'')"
  by (simp add: adminAuth_def Let_def)

text \<open>
  C3. With no admin secret in the environment, \<open>POST /api/admin/auth\<close> answers a
  request that carries no password with success, and one that carries a password with
  401; it never answers 500. The middleware of the other admin endpoints does answer 500
  (\<open>adminAuth_unconfigured\<close>).
\<close>

theorem C3_admin_auth_unconfigured:
  "post_admin_auth \<lparr> ADMIN_PASSWORD = None \<rparr>
     \<lparr> header_x_admin_password = None, query_admin_password = None, body_password = None \<rparr>
   = Json ()
   \<and> post_admin_auth \<lparr> ADMIN_PASSWORD = None \<rparr>
     \<lparr> header_x_admin_password = None, query_admin_password = None, body_password = Some ''guess'' \<rparr>
   = Status 401 ''Invalid password''"
  by (simp add: post_admin_auth_def)

text \<open>
  C4. When the processor returns a session whose payment status is not the string
  \<open>paid\<close>, the verify handler answers, with 400 and the error "Payment not completed",
  and makes no call to the email provider.
\<close>

theorem C4_verify_unpaid:
  assumes "sessions_retrieve stripe sessionId = Inr s"
    and "payment_status s \<noteq> ''paid''"
  shows "verify_payment parse D stripe sessionId = (Some (Status 400 ''Payment not completed''), [])"
  using assms by (simp add: verify_payment_def)

theorem C4_verify_unpaid_witness:
  "(let s = example_session ''unpaid'' Map.empty PI_null
    in sessions_retrieve (example_stripe s) ''cs_test_1'' = Inr s
       \<and> payment_status s \<noteq> ''paid''
       \<and> verify_payment JSON_parse example_dates (example_stripe s) ''cs_test_1''
           = (Some (Status 400 ''Payment not completed''), []))"
proof -
  let ?s = "example_session ''unpaid'' Map.empty PI_null"
  have g: "sessions_retrieve (example_stripe ?s) ''cs_test_1'' = Inr ?s"
    by (simp add: example_stripe_def example_session_def)
  have u: "payment_status ?s \<noteq> ''paid''"
    by (simp add: example_session_def)
  from C4_verify_unpaid [OF g u, of JSON_parse example_dates] g u
  show ?thesis
    unfolding Let_def by blast
qed

text \<open>
  C7. When the session retrieved has an expanded payment intent whose first charge is
  marked refunded, a refund request that passes the middleware is answered 400 with
  "This booking has already been refunded"; and whether or not it passes the
  middleware, the request makes no refund-create call.
\<close>

theorem C7_refund_already_refunded:
  assumes "sessions_retrieve stripe sessionId = Inr s"
    and "payment_intent s = PI_obj obj"
    and "charges_data obj = Some (c # cs)"
    and "refunded c"
  shows "((adminAuth e req :: refund_ok response option) = None \<longrightarrow>
            post_refund e req parse stripe sessionId
              = (Some (Status 400 ''This booking has already been refunded''), []))
         \<and> (\<forall>p. RefundCreate p \<notin> set (snd (post_refund e req parse stripe sessionId)))"
  using assms
  by (auto simp: post_refund_def refund_handler_def first_charge_refunded_def Let_def
           split: option.splits)

text \<open>
  C9. When \<open>bookings\<close> is present and non-empty, both decoders return, having parsed
  its value and nothing else: the result is a function of that value alone, so it is the
  same for every other metadata with this value under \<open>bookings\<close>, whatever the
  sentinel and the chunk keys hold.
\<close>

theorem C9_singular_key_precedence:
  assumes "metadata s ''bookings'' = Some b" and "b \<noteq> []"
  shows "extractBookings parse s = Some (case parse b of Some bs \<Rightarrow> bs | None \<Rightarrow> [])
         \<and> verify_decode parse s
             = Some (case parse b of Some bs \<Rightarrow> Inr bs | None \<Rightarrow> Inl SyntaxError)
         \<and> (\<forall>s'. metadata s' ''bookings'' = Some b \<longrightarrow>
               extractBookings parse s' = extractBookings parse s
               \<and> verify_decode parse s' = verify_decode parse s)"
  using assms
  by (simp add: extractBookings_def verify_decode_def truthy_def tmpl_def Let_def)

lemma String_nat_two_digits: "10 \<le> n \<Longrightarrow> 2 \<le> length (String_nat n)"
  using String_nat_nonempty [of "n div 10"]
  by (subst String_nat.simps) (cases "String_nat (n div 10)"; simp)

lemma String_nat_one_digit: "n < 10 \<Longrightarrow> length (String_nat n) = 1"
  by (subst String_nat.simps) simp

lemma padStart2_String_nat:
  "padStart2 (String_nat n) = (if n < 10 then CHR ''0'' # String_nat n else String_nat n)"
  using String_nat_two_digits [of n] String_nat_one_digit [of n]
  by (simp add: padStart2_def)

lemma String_num_whole:
  "0 \<le> h \<Longrightarrow> h \<le> 2 ^ 53 \<Longrightarrow> String_num big (Finite h) = String_nat (nat h)"
  by (simp add: String_num_def)

lemma parseInt_padded:
  assumes "n \<le> 2 ^ 53"
  shows "parseInt (if n < 10 then CHR ''0'' # String_nat n else String_nat n) = Finite (int n)"
proof (cases "n < 10")
  case False
  then show ?thesis using assms by (simp add: parseInt_String_nat)
next
  case True
  have "\<forall>c \<in> set (CHR ''0'' # String_nat n). c \<in> set ''0123456789''"
    using String_nat_all_digits by auto
  then have "parseInt (CHR ''0'' # String_nat n) = to_double (int (digits_value 10 (CHR ''0'' # String_nat n)))"
    by (intro parseInt_digits) simp_all
  moreover have "digits_value 10 (CHR ''0'' # String_nat n) = digits_value 10 (String_nat n)"
    by (simp add: digits_value_def digit_of_def)
  ultimately show ?thesis
    using True assms by (simp add: digits_value_String_nat to_double_exact)
qed

lemma hour_fields:
  assumes "event_hours t = Finite h" and "0 \<le> h" and "h + 3 \<le> 2 ^ 53"
  shows "startHour D t = (if h < 10 then CHR ''0'' # String_nat (nat h) else String_nat (nat h))"
    and "endHour D t = (if h + 3 < 10 then CHR ''0'' # String_nat (nat (h + 3))
                        else String_nat (nat (h + 3)))"
    and "parseInt (startHour D t) = Finite h"
    and "parseInt (endHour D t) = Finite (h + 3)"
proof -
  have a: "num_add (Finite h) 3 = Finite (h + 3)"
    using assms(2,3) by (intro num_add_exact) simp
  have h: "h \<le> 2 ^ 53" using assms(3) by simp
  have n: "nat h \<le> 2 ^ 53" "nat (h + 3) \<le> 2 ^ 53"
    using assms(2,3) by (simp_all add: nat_le_iff)
  show s: "startHour D t = (if h < 10 then CHR ''0'' # String_nat (nat h) else String_nat (nat h))"
    using assms(2) h
    by (simp add: startHour_def assms(1) String_num_whole padStart2_String_nat) linarith
  show e: "endHour D t = (if h + 3 < 10 then CHR ''0'' # String_nat (nat (h + 3))
                        else String_nat (nat (h + 3)))"
    using assms(2,3)
    by (simp add: endHour_def assms(1) a String_num_whole padStart2_String_nat) linarith
  have "parseInt (startHour D t) = Finite (int (nat h))"
    using parseInt_padded [OF n(1)] assms(2) unfolding s by (simp add: nat_less_iff)
  then show "parseInt (startHour D t) = Finite h" using assms(2) by simp
  have "parseInt (endHour D t) = Finite (int (nat (h + 3)))"
    using parseInt_padded [OF n(2)] assms(2) unfolding e by (simp add: nat_less_iff)
  then show "parseInt (endHour D t) = Finite (h + 3)" using assms(2) by simp
qed

lemma hour_fields_NaN:
  "event_hours t = NaN \<Longrightarrow> startHour D t = ''NaN'' \<and> endHour D t = ''NaN''"
  by (simp add: startHour_def endHour_def num_add_def String_num_def padStart2_def)

lemmas hours_eval = startHour_def endHour_def padStart2_def String_num_def String_nat.simps
  event_hours_def parseInt_def digit_of_def digits_value_def is_space_def Let_def
  to_double_exact num_add_exact


lemma vevent_hour_fields:
  assumes "time item = Some t"
  shows "\<exists>ymd rest. vevent D companyName product index item
           = Inr (''BEGIN:VEVENT'' @ nl
                  @ ''DTSTART:'' @ ymd @ ''T'' @ startHour D t @ ''0000'' @ nl
                  @ ''DTEND:'' @ ymd @ ''T'' @ endHour D t @ ''0000'' @ nl @ rest)"
proof -
  let ?parts = "Date_parts D (date item)"
  let ?ymd = "String_num (String_big D) (date_part fst ?parts)
              @ padStart2 (String_num (String_big D) (num_add (date_part (\<lambda>p. fst (snd p)) ?parts) 1))
              @ padStart2 (String_num (String_big D) (date_part (\<lambda>p. snd (snd p)) ?parts))"
  have "vevent D companyName product index item
        = Inr (''BEGIN:VEVENT'' @ nl
               @ ''DTSTART:'' @ ?ymd @ ''T'' @ startHour D t @ ''0000'' @ nl
               @ ''DTEND:'' @ ?ymd @ ''T'' @ endHour D t @ ''0000'' @ nl
               @ (''SUMMARY:Product Demo - '' @ tmpl companyName @ nl
                @ ''LOCATION:Woodlands Market, '' @ tmpl (location item) @ '', CA'' @ nl
                @ ''DESCRIPTION:Product: '' @ tmpl product @ [CHR 0x5C] @ ''n3-hour product demonstration slot.'' @ nl
                @ ''UID:'' @ (''wm-demo-'' @ String_nat (now D) @ ''-'' @ String_nat index
                    @ ''@woodlandsmarket.com'') @ nl
                @ ''STATUS:CONFIRMED'' @ nl
                @ ''END:VEVENT'' @ nl))"
    using assms by (simp add: vevent_def Let_def)
  then show ?thesis by blast
qed

lemma vevents_return:
  "\<forall>item \<in> set items. time item \<noteq> None \<Longrightarrow> \<exists>evs. vevents D companyName product k items = Inr evs"
proof (induction items arbitrary: k)
  case Nil
  then show ?case by simp
next
  case (Cons item items)
  from Cons.prems obtain t where "time item = Some t" by auto
  from vevent_hour_fields [OF this] obtain ev where "vevent D companyName product k item = Inr ev"
    by blast
  moreover from Cons obtain evs where "vevents D companyName product (Suc k) items = Inr evs"
    by fastforce
  ultimately show ?case by simp
qed

lemma vevents_event:
  assumes "\<forall>item \<in> set items. time item \<noteq> None"
    and "i < length items" and "time (items ! i) = Some t"
  shows "\<exists>pre ymd post. vevents D companyName product k items
           = Inr (pre @ ''BEGIN:VEVENT'' @ nl
                  @ ''DTSTART:'' @ ymd @ ''T'' @ startHour D t @ ''0000'' @ nl
                  @ ''DTEND:'' @ ymd @ ''T'' @ endHour D t @ ''0000'' @ nl @ post)"
  using assms
proof (induction items arbitrary: i k)
  case Nil
  then show ?case by simp
next
  case (Cons item items)
  from Cons.prems(1) obtain t0 where t0: "time item = Some t0" by auto
  from vevent_hour_fields [OF t0] obtain ymd0 rest0 where
    ev: "vevent D companyName product k item
           = Inr (''BEGIN:VEVENT'' @ nl
                  @ ''DTSTART:'' @ ymd0 @ ''T'' @ startHour D t0 @ ''0000'' @ nl
                  @ ''DTEND:'' @ ymd0 @ ''T'' @ endHour D t0 @ ''0000'' @ nl @ rest0)"
    by blast
  have rest: "\<forall>x \<in> set items. time x \<noteq> None" using Cons.prems(1) by simp
  show ?case
  proof (cases i)
    case 0
    with Cons.prems(3) t0 have tt: "t0 = t" by simp
    from vevents_return [OF rest] obtain evs where
      evs: "vevents D companyName product (Suc k) items = Inr evs" by blast
    have "vevents D companyName product k (item # items)
          = Inr ([] @ ''BEGIN:VEVENT'' @ nl
                  @ ''DTSTART:'' @ ymd0 @ ''T'' @ startHour D t @ ''0000'' @ nl
                  @ ''DTEND:'' @ ymd0 @ ''T'' @ endHour D t @ ''0000'' @ nl @ (rest0 @ evs))"
      by (simp add: ev evs tt)
    then show ?thesis by blast
  next
    case (Suc j)
    have "j < length items" using Cons.prems(2) Suc by simp
    moreover have "time (items ! j) = Some t" using Cons.prems(3) Suc by simp
    ultimately obtain pre ymd post where
      r: "vevents D companyName product (Suc k) items
           = Inr (pre @ ''BEGIN:VEVENT'' @ nl
                  @ ''DTSTART:'' @ ymd @ ''T'' @ startHour D t @ ''0000'' @ nl
                  @ ''DTEND:'' @ ymd @ ''T'' @ endHour D t @ ''0000'' @ nl @ post)"
      using Cons.IH [OF rest] by blast
    obtain ev0 where ev0: "vevent D companyName product k item = Inr ev0"
      using ev by blast
    have "vevents D companyName product k (item # items)
          = Inr ((ev0 @ pre) @ ''BEGIN:VEVENT'' @ nl
                  @ ''DTSTART:'' @ ymd @ ''T'' @ startHour D t @ ''0000'' @ nl
                  @ ''DTEND:'' @ ymd @ ''T'' @ endHour D t @ ''0000'' @ nl @ post)"
      by (simp add: ev0 r)
    then show ?thesis by blast
  qed
qed

lemma generateICS_event:
  assumes "\<forall>item \<in> set items. time item \<noteq> None"
    and "i < length items" and "time (items ! i) = Some t"
  shows "\<exists>pre ymd post. generateICS D items companyName product
           = Inr (''BEGIN:VCALENDAR'' @ nl @ pre @ ''BEGIN:VEVENT'' @ nl
                  @ ''DTSTART:'' @ ymd @ ''T'' @ startHour D t @ ''0000'' @ nl
                  @ ''DTEND:'' @ ymd @ ''T'' @ endHour D t @ ''0000'' @ nl
                  @ post @ ''END:VCALENDAR'')"
proof -
  from vevents_event [OF assms, of D companyName product 0] obtain pre ymd post where
    r: "vevents D companyName product 0 items
           = Inr (pre @ ''BEGIN:VEVENT'' @ nl
                  @ ''DTSTART:'' @ ymd @ ''T'' @ startHour D t @ ''0000'' @ nl
                  @ ''DTEND:'' @ ymd @ ''T'' @ endHour D t @ ''0000'' @ nl @ post)"
    by blast
  have "generateICS D items companyName product
        = Inr (''BEGIN:VCALENDAR'' @ nl
               @ ((''VERSION:2.0'' @ nl @ ''PRODID:-//Woodlands Market//Demo Scheduling//EN'' @ nl
                   @ ''CALSCALE:GREGORIAN'' @ nl @ ''METHOD:PUBLISH'' @ nl) @ pre)
               @ ''BEGIN:VEVENT'' @ nl
               @ ''DTSTART:'' @ ymd @ ''T'' @ startHour D t @ ''0000'' @ nl
               @ ''DTEND:'' @ ymd @ ''T'' @ endHour D t @ ''0000'' @ nl
               @ post @ ''END:VCALENDAR'')"
    by (simp add: generateICS_def r)
  then show ?thesis by blast
qed

text \<open>
  C10. The hour read from the time label is a number h; where it is a whole number from
  0 on (and h + 3 is at most \<open>2^53\<close>, so that the sum is exact), the start field is the
  decimal string of h and the end field that of h + 3, each with a leading zero when it
  has one digit, and each reads back as its number: there is no reduction modulo 24.
  The label 11:00 AM gives 11 and 14, 3:00 PM gives 15 and 18, 9:00 PM gives 21 and 24,
  9:00 AM gives 09 and 12, 12:00 AM gives 00 and 03. For every start hour above 20 the
  end field is the unpadded string of h + 3, which is at least 24. A label that starts
  with no number gives the fields \<open>NaN\<close>. The two fields are the hours of the DTSTART
  and DTEND lines of the event written for the slot, and for every slot of a list
  \<open>generateICS\<close> returns a calendar that contains these two lines; the calendar for
  one slot at 9:00 PM is written out, with its end time \<open>T240000\<close>.
\<close>

theorem C10_calendar_end_hour:
  "(\<forall>t h. event_hours t = Finite h \<and> 0 \<le> h \<and> h + 3 \<le> 2 ^ 53 \<longrightarrow>
       startHour D t = (if h < 10 then CHR ''0'' # String_nat (nat h) else String_nat (nat h))
       \<and> endHour D t = (if h + 3 < 10 then CHR ''0'' # String_nat (nat (h + 3))
                         else String_nat (nat (h + 3)))
       \<and> parseInt (startHour D t) = Finite h
       \<and> parseInt (endHour D t) = Finite (h + 3))
   \<and> startHour D ''11:00 AM'' = ''11'' \<and> endHour D ''11:00 AM'' = ''14''
   \<and> startHour D ''3:00 PM'' = ''15'' \<and> endHour D ''3:00 PM'' = ''18''
   \<and> startHour D ''9:00 PM'' = ''21'' \<and> endHour D ''9:00 PM'' = ''24''
   \<and> startHour D ''9:00 AM'' = ''09'' \<and> endHour D ''9:00 AM'' = ''12''
   \<and> startHour D ''12:00 AM'' = ''00'' \<and> endHour D ''12:00 AM'' = ''03''
   \<and> (\<forall>t h. event_hours t = Finite h \<and> 20 < h \<and> h + 3 \<le> 2 ^ 53 \<longrightarrow>
         endHour D t = String_nat (nat (h + 3))
         \<and> parseInt (endHour D t) = Finite (h + 3) \<and> 24 \<le> h + 3)
   \<and> (\<forall>t. event_hours t = NaN \<longrightarrow> startHour D t = ''NaN'' \<and> endHour D t = ''NaN'')
   \<and> (\<forall>companyName product index item t. time item = Some t \<longrightarrow>
         (\<exists>ymd rest. vevent D companyName product index item
            = Inr (''BEGIN:VEVENT'' @ nl
                   @ ''DTSTART:'' @ ymd @ ''T'' @ startHour D t @ ''0000'' @ nl
                   @ ''DTEND:'' @ ymd @ ''T'' @ endHour D t @ ''0000'' @ nl @ rest)))
   \<and> (\<forall>companyName product items i t.
         (\<forall>item \<in> set items. time item \<noteq> None) \<and> i < length items \<and> time (items ! i) = Some t
         \<longrightarrow>
         (\<exists>pre ymd post. generateICS D items companyName product
            = Inr (''BEGIN:VCALENDAR'' @ nl @ pre @ ''BEGIN:VEVENT'' @ nl
                   @ ''DTSTART:'' @ ymd @ ''T'' @ startHour D t @ ''0000'' @ nl
                   @ ''DTEND:'' @ ymd @ ''T'' @ endHour D t @ ''0000'' @ nl
                   @ post @ ''END:VCALENDAR'')))
   \<and> generateICS example_dates
        [\<lparr> date = Some ''2025-06-14'', time = Some ''9:00 PM'', location = Some ''Kentfield'',
           displayDate = Some ''Saturday, June 14, 2025'' \<rparr>] (Some ''Acme'') (Some ''Granola'')
      = Inr (''BEGIN:VCALENDAR'' @ nl @ ''VERSION:2.0'' @ nl
             @ ''PRODID:-//Woodlands Market//Demo Scheduling//EN'' @ nl
             @ ''CALSCALE:GREGORIAN'' @ nl @ ''METHOD:PUBLISH'' @ nl
             @ ''BEGIN:VEVENT'' @ nl
             @ ''DTSTART:20250614T210000'' @ nl
             @ ''DTEND:20250614T240000'' @ nl
             @ ''SUMMARY:Product Demo - Acme'' @ nl
             @ ''LOCATION:Woodlands Market, Kentfield, CA'' @ nl
             @ ''DESCRIPTION:Product: Granola'' @ [CHR 0x5C] @ ''n3-hour product demonstration slot.'' @ nl
             @ ''UID:wm-demo-1750000000000-0@woodlandsmarket.com'' @ nl
             @ ''STATUS:CONFIRMED'' @ nl
             @ ''END:VEVENT'' @ nl
             @ ''END:VCALENDAR'')"
proof (intro conjI allI impI)
  fix t h assume a: "event_hours t = Finite h \<and> 0 \<le> h \<and> h + 3 \<le> 2 ^ 53"
  then show "startHour D t = (if h < 10 then CHR ''0'' # String_nat (nat h) else String_nat (nat h))"
    by (intro hour_fields(1)) simp_all
  from a show "endHour D t = (if h + 3 < 10 then CHR ''0'' # String_nat (nat (h + 3))
                         else String_nat (nat (h + 3)))"
    by (intro hour_fields(2)) simp_all
  from a show "parseInt (startHour D t) = Finite h"
    by (intro hour_fields(3)) simp_all
  from a show "parseInt (endHour D t) = Finite (h + 3)"
    by (intro hour_fields(4)) simp_all
next
  show "startHour D ''11:00 AM'' = ''11''" by (simp add: hours_eval)
  show "endHour D ''11:00 AM'' = ''14''" by (simp add: hours_eval)
  show "startHour D ''3:00 PM'' = ''15''" by (simp add: hours_eval)
  show "endHour D ''3:00 PM'' = ''18''" by (simp add: hours_eval)
  show "startHour D ''9:00 PM'' = ''21''" by (simp add: hours_eval)
  show "endHour D ''9:00 PM'' = ''24''" by (simp add: hours_eval)
  show "startHour D ''9:00 AM'' = ''09''" by (simp add: hours_eval)
  show "endHour D ''9:00 AM'' = ''12''" by (simp add: hours_eval)
  show "startHour D ''12:00 AM'' = ''00''" by (simp add: hours_eval)
  show "endHour D ''12:00 AM'' = ''03''" by (simp add: hours_eval)
next
  fix t h assume a: "event_hours t = Finite h \<and> 20 < h \<and> h + 3 \<le> 2 ^ 53"
  then have "endHour D t = (if h + 3 < 10 then CHR ''0'' # String_nat (nat (h + 3))
                         else String_nat (nat (h + 3)))"
    by (intro hour_fields(2)) simp_all
  with a show "endHour D t = String_nat (nat (h + 3))" by simp
  from a show "parseInt (endHour D t) = Finite (h + 3)"
    by (intro hour_fields(4)) simp_all
  from a show "24 \<le> h + 3" by simp
next
  fix t assume "event_hours t = NaN"
  then show "startHour D t = ''NaN''" and "endHour D t = ''NaN''"
    using hour_fields_NaN by blast+
next
  fix companyName product index and item :: slot and t assume "time item = Some t"
  then show "\<exists>ymd rest. vevent D companyName product index item
            = Inr (''BEGIN:VEVENT'' @ nl
                   @ ''DTSTART:'' @ ymd @ ''T'' @ startHour D t @ ''0000'' @ nl
                   @ ''DTEND:'' @ ymd @ ''T'' @ endHour D t @ ''0000'' @ nl @ rest)"
    by (rule vevent_hour_fields)
next
  fix companyName product and items :: "slot list" and i t
  assume "(\<forall>item \<in> set items. time item \<noteq> None) \<and> i < length items \<and> time (items ! i) = Some t"
  then have 1: "\<forall>item \<in> set items. time item \<noteq> None" and 2: "i < length items"
    and 3: "time (items ! i) = Some t"
    by blast+
  show "\<exists>pre ymd post. generateICS D items companyName product
            = Inr (''BEGIN:VCALENDAR'' @ nl @ pre @ ''BEGIN:VEVENT'' @ nl
                   @ ''DTSTART:'' @ ymd @ ''T'' @ startHour D t @ ''0000'' @ nl
                   @ ''DTEND:'' @ ymd @ ''T'' @ endHour D t @ ''0000'' @ nl
                   @ post @ ''END:VCALENDAR'')"
    by (rule generateICS_event [OF 1 2 3])
next
  show "generateICS example_dates
        [\<lparr> date = Some ''2025-06-14'', time = Some ''9:00 PM'', location = Some ''Kentfield'',
           displayDate = Some ''Saturday, June 14, 2025'' \<rparr>] (Some ''Acme'') (Some ''Granola'')
      = Inr (''BEGIN:VCALENDAR'' @ nl @ ''VERSION:2.0'' @ nl
             @ ''PRODID:-//Woodlands Market//Demo Scheduling//EN'' @ nl
             @ ''CALSCALE:GREGORIAN'' @ nl @ ''METHOD:PUBLISH'' @ nl
             @ ''BEGIN:VEVENT'' @ nl
             @ ''DTSTART:20250614T210000'' @ nl
             @ ''DTEND:20250614T240000'' @ nl
             @ ''SUMMARY:Product Demo - Acme'' @ nl
             @ ''LOCATION:Woodlands Market, Kentfield, CA'' @ nl
             @ ''DESCRIPTION:Product: Granola'' @ [CHR 0x5C] @ ''n3-hour product demonstration slot.'' @ nl
             @ ''UID:wm-demo-1750000000000-0@woodlandsmarket.com'' @ nl
             @ ''STATUS:CONFIRMED'' @ nl
             @ ''END:VEVENT'' @ nl
             @ ''END:VCALENDAR'')"
    by (simp add: generateICS_def vevent_def example_dates_def date_part_def tmpl_def hours_eval)
qed

theorem C10_calendar_end_hour_witness:
  "(let item = \<lparr> date = Some ''2025-06-14'', time = Some ''9:00 PM'', location = Some ''Kentfield'',
                  displayDate = Some ''Saturday, June 14, 2025'' \<rparr>
    in event_hours ''9:00 PM'' = Finite 21 \<and> (0::int) \<le> 21 \<and> (20::int) < 21
       \<and> (21::int) + 3 \<le> 2 ^ 53
       \<and> startHour example_dates ''9:00 PM'' = String_nat 21
       \<and> endHour example_dates ''9:00 PM'' = String_nat 24
       \<and> parseInt (endHour example_dates ''9:00 PM'') = Finite 24
       \<and> event_hours ''noon'' = NaN
       \<and> endHour example_dates ''noon'' = ''NaN''
       \<and> time item = Some ''9:00 PM''
       \<and> (\<exists>ymd rest. vevent example_dates (Some ''Acme'') (Some ''Granola'') 0 item
            = Inr (''BEGIN:VEVENT'' @ nl
                   @ ''DTSTART:'' @ ymd @ ''T'' @ startHour example_dates ''9:00 PM'' @ ''0000'' @ nl
                   @ ''DTEND:'' @ ymd @ ''T'' @ endHour example_dates ''9:00 PM'' @ ''0000'' @ nl @ rest))
       \<and> (\<forall>x \<in> set [item]. time x \<noteq> None) \<and> 0 < length [item] \<and> time ([item] ! 0) = Some ''9:00 PM''
       \<and> (\<exists>pre ymd post. generateICS example_dates [item] (Some ''Acme'') (Some ''Granola'')
            = Inr (''BEGIN:VCALENDAR'' @ nl @ pre @ ''BEGIN:VEVENT'' @ nl
                   @ ''DTSTART:'' @ ymd @ ''T'' @ startHour example_dates ''9:00 PM'' @ ''0000'' @ nl
                   @ ''DTEND:'' @ ymd @ ''T'' @ endHour example_dates ''9:00 PM'' @ ''0000'' @ nl
                   @ post @ ''END:VCALENDAR'')))"
proof -
  let ?item = "\<lparr> date = Some ''2025-06-14'', time = Some ''9:00 PM'', location = Some ''Kentfield'',
                  displayDate = Some ''Saturday, June 14, 2025'' \<rparr>"
  note T = C10_calendar_end_hour [where D = example_dates]
  have h: "event_hours ''9:00 PM'' = Finite 21"
    by (simp add: hours_eval)
  have n: "event_hours ''noon'' = NaN"
    by (simp add: event_hours_def parseInt_def digit_of_def is_space_def Let_def)
  have b: "(0::int) \<le> 21" "(20::int) < 21" "(21::int) + 3 \<le> 2 ^ 53"
    by simp_all
  from T have
    g: "event_hours ''9:00 PM'' = Finite 21 \<and> (0::int) \<le> 21 \<and> (21::int) + 3 \<le> 2 ^ 53 \<longrightarrow>
          startHour example_dates ''9:00 PM''
            = (if (21::int) < 10 then CHR ''0'' # String_nat (nat 21) else String_nat (nat 21))"
    by blast
  from T have
    l: "event_hours ''9:00 PM'' = Finite 21 \<and> (20::int) < 21 \<and> (21::int) + 3 \<le> 2 ^ 53 \<longrightarrow>
          endHour example_dates ''9:00 PM'' = String_nat (nat (21 + 3))
          \<and> parseInt (endHour example_dates ''9:00 PM'') = Finite (21 + 3)"
    by blast
  from T have
    m: "event_hours ''noon'' = NaN \<longrightarrow> endHour example_dates ''noon'' = ''NaN''"
    by blast
  from T have
    v: "time ?item = Some ''9:00 PM'' \<longrightarrow>
          (\<exists>ymd rest. vevent example_dates (Some ''Acme'') (Some ''Granola'') 0 ?item
            = Inr (''BEGIN:VEVENT'' @ nl
                   @ ''DTSTART:'' @ ymd @ ''T'' @ startHour example_dates ''9:00 PM'' @ ''0000'' @ nl
                   @ ''DTEND:'' @ ymd @ ''T'' @ endHour example_dates ''9:00 PM'' @ ''0000'' @ nl @ rest))"
    by blast
  from T have
    c: "(\<forall>x \<in> set [?item]. time x \<noteq> None) \<and> 0 < length [?item]
          \<and> time ([?item] ! 0) = Some ''9:00 PM'' \<longrightarrow>
          (\<exists>pre ymd post. generateICS example_dates [?item] (Some ''Acme'') (Some ''Granola'')
            = Inr (''BEGIN:VCALENDAR'' @ nl @ pre @ ''BEGIN:VEVENT'' @ nl
                   @ ''DTSTART:'' @ ymd @ ''T'' @ startHour example_dates ''9:00 PM'' @ ''0000'' @ nl
                   @ ''DTEND:'' @ ymd @ ''T'' @ endHour example_dates ''9:00 PM'' @ ''0000'' @ nl
                   @ post @ ''END:VCALENDAR''))"
    by blast
  have i: "time ?item = Some ''9:00 PM''"
    "(\<forall>x \<in> set [?item]. time x \<noteq> None) \<and> 0 < length [?item] \<and> time ([?item] ! 0) = Some ''9:00 PM''"
    by simp_all
  have s: "startHour example_dates ''9:00 PM'' = String_nat 21"
    using g h b by simp
  have k: "(21::int) + 3 = 24" "nat (24::int) = 24"
    by simp_all
  have e: "endHour example_dates ''9:00 PM'' = String_nat 24
           \<and> parseInt (endHour example_dates ''9:00 PM'') = Finite 24"
    using l h b unfolding k by blast
  show ?thesis
    unfolding Let_def using h n b s e m v c i by (intro conjI) blast+
qed

subsection \<open>Analytics\<close>
































subsection \<open>Pricing\<close>

lemma amount_total_lineItems: "amount_total_of (map lineItem cart) = length cart * 3000"
  by (induction cart) (simp_all add: amount_total_of_def lineItem_def)

text \<open>
  C8. Every cart of N slots becomes N line items, the i-th made from the i-th slot,
  each with unit amount 3000 and quantity 1 whatever its location and date, duplicates
  included; the processor's total is N * 3000.
\<close>

theorem C8_line_items_pricing:
  "length (lineItems cart) = length cart
   \<and> (\<forall>i < length cart. lineItems cart ! i = lineItem (cart ! i))
   \<and> (\<forall>li \<in> set (lineItems cart). unit_amount li = 3000 \<and> quantity li = 1)
   \<and> amount_total_of (lineItems cart) = length cart * 3000"
proof (intro conjI)
  show "length (lineItems cart) = length cart"
    by (simp add: lineItems_def)
  show "\<forall>i < length cart. lineItems cart ! i = lineItem (cart ! i)"
    by (simp add: lineItems_def)
  show "\<forall>li \<in> set (lineItems cart). unit_amount li = 3000 \<and> quantity li = 1"
    by (auto simp: lineItems_def lineItem_def)
  show "amount_total_of (lineItems cart) = length cart * 3000"
    unfolding lineItems_def by (rule amount_total_lineItems)
qed

theorem C8_line_items_pricing_witness:
  "(let b = \<lparr> date = Some ''2025-06-14'', time = Some ''11:00 AM'', location = Some ''Kentfield'',
              displayDate = Some ''Sat, Jun 14'', dateStr = None \<rparr>;
        cart = [b, b]
    in length (lineItems cart) = 2
       \<and> (\<forall>i < length cart. lineItems cart ! i = lineItem (cart ! i))
       \<and> (\<forall>li \<in> set (lineItems cart). unit_amount li = 3000 \<and> quantity li = 1)
       \<and> amount_total_of (lineItems cart) = 6000)"
  using C8_line_items_pricing
    [of "[\<lparr> date = Some ''2025-06-14'', time = Some ''11:00 AM'', location = Some ''Kentfield'',
              displayDate = Some ''Sat, Jun 14'', dateStr = None \<rparr>,
          \<lparr> date = Some ''2025-06-14'', time = Some ''11:00 AM'', location = Some ''Kentfield'',
              displayDate = Some ''Sat, Jun 14'', dateStr = None \<rparr>]"]
  by (simp add: Let_def)

subsection \<open>The theorems at concrete inputs\<close>

lemmas json_print = JSON_stringify_def stringify_slot_def stringify_member_def members_def
  QuoteJSONString_def quote_char_def dquote_def bslash_def

lemma example_cart_length: "length (JSON_stringify (slim example_cart)) = 619"
  by (simp add: slim_def js_or_def truthy_def json_print example_cart_def example_item_def)

lemma example_cart_dates: "\<forall>b \<in> set example_cart. truthy (date b)"
  by (simp add: example_cart_def example_item_def truthy_def)

lemma quote_replicate_x: "concat (map quote_char (replicate n CHR ''x'')) = replicate n CHR ''x''"
  by (induction n) (simp_all add: quote_char_def dquote_def bslash_def)

lemma example_long_length: "length (JSON_stringify (slim [example_long n])) = 95 + n"
  by (simp add: slim_def js_or_def truthy_def json_print example_long_def example_item_def
        quote_replicate_x del: replicate.simps)

theorem C1_codec_roundtrip_witness:
  "(let s = example_session ''paid''
              (checkout_metadata JSON_stringify example_cart (Some ''Ann'') (Some ''Acme'')
                 (Some ''Granola'') None) PI_null;
        s1 = example_session ''paid''
              (checkout_metadata JSON_stringify [example_item] (Some ''Ann'') (Some ''Acme'')
                 (Some ''Granola'') None) PI_null;
        s0 = example_session ''paid''
              (checkout_metadata JSON_stringify [] (Some ''Ann'') (Some ''Acme'')
                 (Some ''Granola'') None) PI_null
    in 500 < length (JSON_stringify (slim example_cart))
       \<and> length (JSON_stringify (slim example_cart)) < 2 ^ 53
       \<and> length (JSON_stringify (slim [example_item])) < 2 ^ 53
       \<and> length (JSON_stringify (slim [])) < 2 ^ 53
       \<and> (\<forall>b \<in> set example_cart. truthy (date b))
       \<and> extractBookings JSON_parse s = Some (map reduced example_cart)
       \<and> verify_decode JSON_parse s = Some (Inr (map reduced example_cart))
       \<and> extractBookings JSON_parse s1 = Some [reduced example_item]
       \<and> extractBookings JSON_parse s0 = Some [])"
proof -
  let ?s = "example_session ''paid''
              (checkout_metadata JSON_stringify example_cart (Some ''Ann'') (Some ''Acme'')
                 (Some ''Granola'') None) PI_null"
  let ?s1 = "example_session ''paid''
              (checkout_metadata JSON_stringify [example_item] (Some ''Ann'') (Some ''Acme'')
                 (Some ''Granola'') None) PI_null"
  let ?sempty = "example_session ''paid''
              (checkout_metadata JSON_stringify [] (Some ''Ann'') (Some ''Acme'')
                 (Some ''Granola'') None) PI_null"
  have m: "metadata ?s = checkout_metadata JSON_stringify example_cart (Some ''Ann'') (Some ''Acme'')
                 (Some ''Granola'') None"
    by (simp add: example_session_def)
  have m1: "metadata ?s1 = checkout_metadata JSON_stringify [example_item] (Some ''Ann'') (Some ''Acme'')
                 (Some ''Granola'') None"
    by (simp add: example_session_def)
  have m0: "metadata ?sempty = checkout_metadata JSON_stringify [] (Some ''Ann'') (Some ''Acme'')
                 (Some ''Granola'') None"
    by (simp add: example_session_def)
  have d1: "\<forall>b \<in> set [example_item]. truthy (date b)"
    by (simp add: example_item_def truthy_def)
  have l: "length (JSON_stringify (slim example_cart)) < 2 ^ 53"
    by (simp add: example_cart_length)
  have l1: "length (JSON_stringify (slim [example_item])) < 2 ^ 53"
    using example_long_length [of 9]
    by (simp add: slim_def js_or_def truthy_def json_print example_item_def)
  have l0: "length (JSON_stringify (slim [])) < 2 ^ 53"
    by (simp add: slim_def JSON_stringify_def)
  from C1_codec_roundtrip [OF m l] example_cart_dates
  have a: "extractBookings JSON_parse ?s = Some (map reduced example_cart)"
    and b: "verify_decode JSON_parse ?s = Some (Inr (map reduced example_cart))"
    by blast+
  from C1_codec_roundtrip [OF m1 l1] d1
  have c: "extractBookings JSON_parse ?s1 = Some (map reduced [example_item])"
    by blast
  from C1_codec_roundtrip [OF m0 l0]
  have d: "extractBookings JSON_parse ?sempty = Some []"
    by blast
  show ?thesis
    unfolding Let_def using a b c d l l1 l0 example_cart_dates
    by (simp add: example_cart_length)
qed

theorem C2_chunk_layout_witness:
  "(let str = JSON_stringify (slim example_cart);
        meta = checkout_metadata JSON_stringify example_cart (Some ''Ann'') (Some ''Acme'')
                 (Some ''Granola'') None;
        none = checkout_metadata JSON_stringify [] (Some ''Ann'') (Some ''Acme'')
                 (Some ''Granola'') None;
        at500 = checkout_metadata JSON_stringify [example_long 405] (Some ''Ann'') (Some ''Acme'')
                 (Some ''Granola'') None;
        at501 = checkout_metadata JSON_stringify [example_long 406] (Some ''Ann'') (Some ''Acme'')
                 (Some ''Granola'') None
    in length str = 619
       \<and> meta ''bookings'' = None \<and> meta ''bookings_chunks'' = Some ''2''
       \<and> meta ''bookings_0'' = Some (take 500 str) \<and> meta ''bookings_1'' = Some (drop 500 str)
       \<and> meta ''bookings_2'' = None
       \<and> JSON_stringify (slim []) = ''[]''
       \<and> none ''bookings'' = Some ''[]'' \<and> none ''bookings_chunks'' = None
       \<and> length (JSON_stringify (slim [example_long 405])) = 500
       \<and> at500 ''bookings'' = Some (JSON_stringify (slim [example_long 405]))
       \<and> at500 ''bookings_chunks'' = None
       \<and> length (JSON_stringify (slim [example_long 406])) = 501
       \<and> at501 ''bookings'' = None \<and> at501 ''bookings_chunks'' = Some ''2'')"
proof -
  let ?str = "JSON_stringify (slim example_cart)"
  let ?meta = "checkout_metadata JSON_stringify example_cart (Some ''Ann'') (Some ''Acme'')
                 (Some ''Granola'') None"
  let ?none = "checkout_metadata JSON_stringify [] (Some ''Ann'') (Some ''Acme'')
                 (Some ''Granola'') None"
  let ?at500 = "checkout_metadata JSON_stringify [example_long 405] (Some ''Ann'') (Some ''Acme'')
                 (Some ''Granola'') None"
  let ?at501 = "checkout_metadata JSON_stringify [example_long 406] (Some ''Ann'') (Some ''Acme'')
                 (Some ''Granola'') None"
  have two: "nat \<lceil>real (619::nat) / 500\<rceil> = 2"
    by simp
  have s2: "String_nat 2 = ''2''"
    by (simp add: String_nat.simps)
  have e: "JSON_stringify (slim []) = ''[]''"
    by (simp add: slim_def JSON_stringify_def)
  have k: "''bookings_0'' = chunk_key 0" "''bookings_1'' = chunk_key 1" "''bookings_2'' = chunk_key 2"
    by (simp_all add: chunk_key_def String_nat.simps)
  have l500: "length (JSON_stringify (slim [example_long 405])) = 500"
    and l501: "length (JSON_stringify (slim [example_long 406])) = 501"
    by (simp_all add: example_long_length)
  from C2_chunk_layout
      [of JSON_stringify example_cart "Some ''Ann''" "Some ''Acme''" "Some ''Granola''" None]
  have large: "?meta ''bookings'' = None" "?meta ''bookings_chunks'' = Some ''2''"
    and chunks: "\<forall>i. ?meta (chunk_key i) = (if i < 2 then Some (take 500 (drop (500 * i) ?str)) else None)"
    unfolding Let_def example_cart_length two s2 by simp_all
  have c0: "?meta ''bookings_0'' = Some (take 500 ?str)"
    unfolding k using chunks by simp
  have c1: "?meta ''bookings_1'' = Some (drop 500 ?str)"
    unfolding k using chunks by (simp add: example_cart_length)
  have c2: "?meta ''bookings_2'' = None"
    unfolding k using chunks by simp
  from C2_chunk_layout
      [of JSON_stringify "[]" "Some ''Ann''" "Some ''Acme''" "Some ''Granola''" None]
  have small: "?none ''bookings'' = Some ''[]''" "?none ''bookings_chunks'' = None"
    unfolding Let_def e by simp_all
  from C2_chunk_layout
      [of JSON_stringify "[example_long 405]" "Some ''Ann''" "Some ''Acme''" "Some ''Granola''" None]
  have b500: "?at500 ''bookings'' = Some (JSON_stringify (slim [example_long 405]))"
    "?at500 ''bookings_chunks'' = None"
    unfolding Let_def using l500 by simp_all
  from C2_chunk_layout
      [of JSON_stringify "[example_long 406]" "Some ''Ann''" "Some ''Acme''" "Some ''Granola''" None]
  have b501: "?at501 ''bookings'' = None" "?at501 ''bookings_chunks'' = Some ''2''"
    unfolding Let_def using l501 by (simp_all add: s2)
  show ?thesis
    unfolding Let_def
    using example_cart_length large c0 c1 c2 e small l500 b500 l501 b501 by simp
qed

theorem C7_refund_already_refunded_witness:
  "(let obj = \<lparr> pi_id = ''pi_1'', charges_data = Some [\<lparr> refunded = True, amount_refunded = 3000 \<rparr>] \<rparr>;
        s = example_session ''paid'' Map.empty (PI_obj obj);
        e = \<lparr> ADMIN_PASSWORD = Some ''secret'' \<rparr>;
        req = \<lparr> header_x_admin_password = Some ''secret'', query_admin_password = None,
                body_password = None \<rparr>
    in sessions_retrieve (example_stripe s) ''cs_test_1'' = Inr s
       \<and> payment_intent s = PI_obj obj
       \<and> charges_data obj = Some [\<lparr> refunded = True, amount_refunded = 3000 \<rparr>]
       \<and> refunded \<lparr> refunded = True, amount_refunded = 3000 \<rparr>
       \<and> (adminAuth e req :: refund_ok response option) = None
       \<and> post_refund e req JSON_parse (example_stripe s) ''cs_test_1''
           = (Some (Status 400 ''This booking has already been refunded''), []))"
  using C7_refund_already_refunded
    [of "example_stripe (example_session ''paid'' Map.empty
           (PI_obj \<lparr> pi_id = ''pi_1'', charges_data = Some [\<lparr> refunded = True, amount_refunded = 3000 \<rparr>] \<rparr>))"
        "''cs_test_1''"
        "example_session ''paid'' Map.empty
           (PI_obj \<lparr> pi_id = ''pi_1'', charges_data = Some [\<lparr> refunded = True, amount_refunded = 3000 \<rparr>] \<rparr>)"
        "\<lparr> pi_id = ''pi_1'', charges_data = Some [\<lparr> refunded = True, amount_refunded = 3000 \<rparr>] \<rparr>"
        "\<lparr> refunded = True, amount_refunded = 3000 \<rparr>" "[]"
        "\<lparr> ADMIN_PASSWORD = Some ''secret'' \<rparr>"
        "\<lparr> header_x_admin_password = Some ''secret'', query_admin_password = None,
           body_password = None \<rparr>" JSON_parse]
  by (simp add: Let_def example_session_def example_stripe_def adminAuth_def js_or_def truthy_def)

theorem C9_singular_key_precedence_witness:
  "(let b = JSON_stringify [reduced example_item];
        s = example_session ''paid''
              [''bookings'' \<mapsto> b, ''bookings_chunks'' \<mapsto> ''1'', ''bookings_0'' \<mapsto> ''[]''] PI_null;
        s' = example_session ''paid'' [''bookings'' \<mapsto> b] PI_null
    in metadata s ''bookings'' = Some b \<and> b \<noteq> []
       \<and> extractBookings JSON_parse s = Some [reduced example_item]
       \<and> verify_decode JSON_parse s = Some (Inr [reduced example_item])
       \<and> metadata s' ''bookings'' = Some b
       \<and> extractBookings JSON_parse s' = extractBookings JSON_parse s)"
proof -
  let ?b = "JSON_stringify [reduced example_item]"
  let ?s = "example_session ''paid''
              [''bookings'' \<mapsto> ?b, ''bookings_chunks'' \<mapsto> ''1'', ''bookings_0'' \<mapsto> ''[]''] PI_null"
  have m: "metadata ?s ''bookings'' = Some ?b"
    by (simp add: example_session_def)
  have ne: "?b \<noteq> []"
    by (rule JSON_stringify_nonempty)
  have m': "metadata (example_session ''paid'' [''bookings'' \<mapsto> ?b] PI_null) ''bookings'' = Some ?b"
    by (simp add: example_session_def)
  from C9_singular_key_precedence [OF m ne, of JSON_parse] m m' ne
  show ?thesis
    by (simp add: Let_def JSON_roundtrip)
qed





end
